theory Spec2Isabelle
  imports Main "HOL-Library.Word"
begin

section \<open>Data model\<close>

text \<open>
  The ESP-IDF error codes the sources return.
\<close>

datatype esp_err_t = ESP_OK | ESP_FAIL | ESP_ERR_INVALID_ARG | ESP_ERR_INVALID_SIZE

text \<open>
  \<^verbatim>\<open>attack_log_t\<close> is declared in \<^verbatim>\<open>logging/attack_logger.h\<close>; its fields are the ones
  the sources read and write. The character arrays are zero-initialised and always
  written through \<^verbatim>\<open>strncpy(.., sizeof - 1)\<close>, \<^verbatim>\<open>strcpy\<close> of a literal or \<^verbatim>\<open>snprintf\<close>,
  so each holds a NUL-terminated string: a field is the string before the first NUL.
\<close>

record attack_log_t =
  timestamp :: int
  source_ip :: string
  target_port :: "16 word"
  service :: string
  username :: string
  password :: string
  user_agent :: string
  payload_hash :: string
  metadata :: string

definition zero_log :: attack_log_t where
  "zero_log = \<lparr>timestamp = 0, source_ip = [], target_port = 0, service = [],
     username = [], password = [], user_agent = [], payload_hash = [], metadata = []\<rparr>"

section \<open>Attack logger (logging/attack\_logger.c)\<close>

definition MAX_LOG_ENTRIES :: nat where
  "MAX_LOG_ENTRIES = 100"

text \<open>
  The file's static state: the ring \<^verbatim>\<open>log_buffer[MAX_LOG_ENTRIES]\<close> with its three
  indices, and \<^verbatim>\<open>logger_stats_t stats\<close> (fields \<^verbatim>\<open>total_logged\<close>, \<^verbatim>\<open>last_log_time\<close>,
  \<^verbatim>\<open>start_time\<close>; no claim depends on the width of the counter, it is a natural number
  here). \<^verbatim>\<open>flash\<close> is the durable mirror behind \<^verbatim>\<open>flash_storage_save_log\<close> and
  \<^verbatim>\<open>flash_storage_clear_all\<close>.
\<close>

record logger =
  log_buffer :: "attack_log_t list"
  buffer_head :: nat
  buffer_tail :: nat
  buffer_count :: nat
  total_logged :: nat
  last_log_time :: int
  start_time :: int
  flash :: "attack_log_t list"

text \<open>The state after program start: C statics are zero, the mirror holds \<open>fl\<close>.\<close>

definition logger_boot :: "attack_log_t list \<Rightarrow> logger" where
  "logger_boot fl = \<lparr>log_buffer = replicate MAX_LOG_ENTRIES zero_log,
     buffer_head = 0, buffer_tail = 0, buffer_count = 0,
     total_logged = 0, last_log_time = 0, start_time = 0, flash = fl\<rparr>"

text \<open>
  Modelled from the spec: \<^verbatim>\<open>flash_storage.c\<close> is not among the sources. The spec gives
  the flash capability as append / load / clear. \<^verbatim>\<open>flash_storage_save_log\<close> appends the
  record to the mirror, \<^verbatim>\<open>flash_storage_clear_all\<close> empties it, and
  \<^verbatim>\<open>flash_storage_load_logs(log_buffer, MAX_LOG_ENTRIES)\<close> copies the records it
  delivers to the front of the array and returns their number. What it delivers is an
  input of \<open>attack_logger_init\<close> (the list \<open>loaded\<close>); a delivery longer than the array
  is cut at the array's end.
\<close>

definition flash_storage_save_log :: "attack_log_t \<Rightarrow> attack_log_t list \<Rightarrow> attack_log_t list" where
  "flash_storage_save_log e fl = fl @ [e]"

definition flash_storage_clear_all :: "attack_log_t list \<Rightarrow> attack_log_t list" where
  "flash_storage_clear_all fl = []"

definition flash_storage_load_logs :: "attack_log_t list \<Rightarrow> attack_log_t list \<Rightarrow> attack_log_t list" where
  "flash_storage_load_logs loaded buf =
     take (length buf) (loaded @ drop (length loaded) buf)"

text \<open>
  \<^verbatim>\<open>attack_logger_init\<close>: \<open>flash_ok\<close> is whether \<^verbatim>\<open>flash_storage_init()\<close> returned
  \<^verbatim>\<open>ESP_OK\<close>, \<open>now\<close> is \<^verbatim>\<open>time(NULL)\<close>. The tail index is not assigned.
\<close>

definition attack_logger_init ::
    "bool \<Rightarrow> attack_log_t list \<Rightarrow> int \<Rightarrow> logger \<Rightarrow> esp_err_t \<times> logger" where
  "attack_logger_init flash_ok loaded now s =
     (if \<not> flash_ok then (ESP_FAIL, s)
      else
        let s1 = s\<lparr>log_buffer := flash_storage_load_logs loaded (log_buffer s)\<rparr>;
            s2 = (if length loaded > 0
                  then s1\<lparr>buffer_head := length loaded mod MAX_LOG_ENTRIES,
                          buffer_count := length loaded\<rparr>
                  else s1)
        in (ESP_OK, s2\<lparr>start_time := now\<rparr>))"

text \<open>
  \<^verbatim>\<open>attack_logger_log\<close>: \<open>None\<close> is the NULL pointer. The last step, \<^verbatim>\<open>log_to_console\<close>,
  writes a console line and changes none of the state; it hands the result of
  \<^verbatim>\<open>localtime\<close> to \<^verbatim>\<open>strftime\<close> unchecked, so for a timestamp that \<^verbatim>\<open>localtime\<close> cannot
  break down the call does not return, the state being the one given here.
\<close>

definition attack_logger_log :: "attack_log_t option \<Rightarrow> int \<Rightarrow> logger \<Rightarrow> esp_err_t \<times> logger" where
  "attack_logger_log log_entry now s =
     (case log_entry of
        None \<Rightarrow> (ESP_ERR_INVALID_ARG, s)
      | Some e \<Rightarrow>
          let s1 = s\<lparr>log_buffer := (log_buffer s)[buffer_head s := e],
                     buffer_head := (buffer_head s + 1) mod MAX_LOG_ENTRIES\<rparr>;
              s2 = (if buffer_count s1 < MAX_LOG_ENTRIES
                    then s1\<lparr>buffer_count := buffer_count s1 + 1\<rparr>
                    else s1\<lparr>buffer_tail := (buffer_tail s1 + 1) mod MAX_LOG_ENTRIES\<rparr>)
          in (ESP_OK, s2\<lparr>total_logged := total_logged s2 + 1,
                          last_log_time := now,
                          flash := flash_storage_save_log e (flash s2)\<rparr>))"

text \<open>
  The copy loop of \<^verbatim>\<open>attack_logger_get_recent\<close>: \<open>idx\<close> steps backwards with
  wrap-around before each read.
\<close>

fun copy_recent :: "attack_log_t list \<Rightarrow> nat \<Rightarrow> nat \<Rightarrow> attack_log_t list" where
  "copy_recent buf idx 0 = []"
| "copy_recent buf idx (Suc k) =
     (let idx' = (if idx = 0 then MAX_LOG_ENTRIES - 1 else idx - 1)
      in buf ! idx' # copy_recent buf idx' k)"

text \<open>
  \<^verbatim>\<open>attack_logger_get_recent(logs, max_logs, num_logs)\<close>: the two flags say whether
  \<^verbatim>\<open>logs\<close> and \<^verbatim>\<open>num_logs\<close> are non-NULL. The result is the records written to
  \<^verbatim>\<open>logs[0..]\<close> in index order, and \<^verbatim>\<open>*num_logs\<close>.
\<close>

definition attack_logger_get_recent ::
    "logger \<Rightarrow> bool \<Rightarrow> nat \<Rightarrow> bool \<Rightarrow> esp_err_t + (attack_log_t list \<times> nat)" where
  "attack_logger_get_recent s logs_ok max_logs num_ok =
     (if \<not> logs_ok \<or> \<not> num_ok then Inl ESP_ERR_INVALID_ARG
      else
        let count = (if buffer_count s < max_logs then buffer_count s else max_logs)
        in if count = 0 then Inr ([], count)
           else Inr (copy_recent (log_buffer s) (buffer_head s) count, count))"

text \<open>\<^verbatim>\<open>attack_logger_clear\<close>: the indices, the mirror and two of the statistics.\<close>

definition attack_logger_clear :: "logger \<Rightarrow> esp_err_t \<times> logger" where
  "attack_logger_clear s =
     (ESP_OK, s\<lparr>buffer_head := 0, buffer_tail := 0, buffer_count := 0,
                flash := flash_storage_clear_all (flash s),
                total_logged := 0, last_log_time := 0\<rparr>)"

definition attack_logger_count :: "logger \<Rightarrow> nat" where
  "attack_logger_count s = buffer_count s"

subsection \<open>Runs of the logger\<close>

datatype logger_op =
    Init bool "attack_log_t list" int
  | Log "attack_log_t option" int
  | Clear

fun logger_step :: "logger_op \<Rightarrow> logger \<Rightarrow> logger" where
  "logger_step (Init flash_ok loaded now) s = snd (attack_logger_init flash_ok loaded now s)"
| "logger_step (Log e now) s = snd (attack_logger_log e now s)"
| "logger_step Clear s = snd (attack_logger_clear s)"

fun logger_run :: "logger_op list \<Rightarrow> logger \<Rightarrow> logger" where
  "logger_run [] s = s"
| "logger_run (op # ops) s = logger_run ops (logger_step op s)"

text \<open>An init whose flash delivers at most \<^verbatim>\<open>MAX_LOG_ENTRIES\<close> records.\<close>

fun load_bounded :: "logger_op \<Rightarrow> bool" where
  "load_bounded (Init flash_ok loaded now) = (length loaded \<le> MAX_LOG_ENTRIES)"
| "load_bounded _ = True"

text \<open>
  The records the ring is meant to hold, oldest first: a successful init that loads
  something replaces them by the loaded records in array order, a log appends one,
  clear forgets them.
\<close>

fun history_step :: "logger_op \<Rightarrow> attack_log_t list \<Rightarrow> attack_log_t list" where
  "history_step (Init flash_ok loaded now) h = (if flash_ok \<and> loaded \<noteq> [] then loaded else h)"
| "history_step (Log None now) h = h"
| "history_step (Log (Some e) now) h = h @ [e]"
| "history_step Clear h = []"

fun history :: "logger_op list \<Rightarrow> attack_log_t list \<Rightarrow> attack_log_t list" where
  "history [] h = h"
| "history (op # ops) h = history ops (history_step op h)"


subsection \<open>Ring bookkeeping\<close>



text \<open>The array index \<open>i + 1\<close> steps behind the head, with wrap-around.\<close>

definition back_index :: "nat \<Rightarrow> nat \<Rightarrow> nat" where
  "back_index h i = (h + MAX_LOG_ENTRIES - Suc i) mod MAX_LOG_ENTRIES"

text \<open>The ring holds the newest \<open>buffer_count\<close> records of \<open>h\<close>, newest just behind the head.\<close>

definition ring_holds :: "logger \<Rightarrow> attack_log_t list \<Rightarrow> bool" where
  "ring_holds s h = (length (log_buffer s) = MAX_LOG_ENTRIES
     \<and> buffer_head s < MAX_LOG_ENTRIES
     \<and> buffer_count s = min MAX_LOG_ENTRIES (length h)
     \<and> (\<forall>i < buffer_count s. log_buffer s ! back_index (buffer_head s) i = rev h ! i))"

text \<open>Sample records and runs.\<close>

definition rec_a :: attack_log_t where
  "rec_a = zero_log\<lparr>timestamp := 1, service := ''HTTP''\<rparr>"

definition rec_b :: attack_log_t where
  "rec_b = zero_log\<lparr>timestamp := 2, service := ''FTP''\<rparr>"

definition short_run :: "logger_op list" where
  "short_run = [Init True [] 0, Log (Some rec_a) 1, Log None 1, Log (Some rec_b) 2]"

definition wrapped_run :: "logger_op list" where
  "wrapped_run = [Init True (replicate 100 rec_a) 0, Log (Some rec_b) 2]"


section \<open>C strings and the C library calls the HTTP service uses\<close>

text \<open>
  A buffer is a list of bytes; the C string in it ends before the first NUL. The
  library calls below work on C strings, so a pointer into one is the list of the
  characters from that position to the end.
\<close>

definition NUL :: char where
  "NUL = CHR 0x00"

definition CR :: char where
  "CR = CHR 0x0D"

definition LF :: char where
  "LF = CHR 0x0A"

definition crlf :: string where
  "crlf = [CR, LF]"

definition cstr :: "string \<Rightarrow> string" where
  "cstr bytes = takeWhile (\<lambda>c. c \<noteq> NUL) bytes"

text \<open>\<^verbatim>\<open>isspace\<close>, \<^verbatim>\<open>isxdigit\<close> and \<^verbatim>\<open>tolower\<close> in the C locale.\<close>

definition isspace :: "char \<Rightarrow> bool" where
  "isspace c = (c = CHR '' '' \<or> (9 \<le> (of_char c :: nat) \<and> (of_char c :: nat) \<le> 13))"

definition isxdigit :: "char \<Rightarrow> bool" where
  "isxdigit c = (let n = (of_char c :: nat) in
     (48 \<le> n \<and> n \<le> 57) \<or> (65 \<le> n \<and> n \<le> 70) \<or> (97 \<le> n \<and> n \<le> 102))"

definition tolower :: "char \<Rightarrow> char" where
  "tolower c = (let n = (of_char c :: nat) in if 65 \<le> n \<and> n \<le> 90 then char_of (n + 32) else c)"

text \<open>The value of a hexadecimal digit, as \<^verbatim>\<open>strtol(.., 16)\<close> reads it.\<close>

definition hexval :: "char \<Rightarrow> nat" where
  "hexval c = (let n = (of_char c :: nat) in
     if 48 \<le> n \<and> n \<le> 57 then n - 48
     else if 65 \<le> n \<and> n \<le> 70 then n - 55
     else n - 87)"

text \<open>\<^verbatim>\<open>strstr\<close>: the position of the first occurrence, \<open>None\<close> for NULL.\<close>

fun strstr :: "string \<Rightarrow> string \<Rightarrow> string option" where
  "strstr [] needle = (if needle = [] then Some [] else None)"
| "strstr (c # cs) needle =
     (if take (length needle) (c # cs) = needle then Some (c # cs) else strstr cs needle)"

text \<open>\<^verbatim>\<open>strchr\<close> for a character other than NUL.\<close>

fun strchr :: "string \<Rightarrow> char \<Rightarrow> string option" where
  "strchr [] ch = None"
| "strchr (c # cs) ch = (if c = ch then Some (c # cs) else strchr cs ch)"

text \<open>
  \<^verbatim>\<open>strncasecmp(a, b, n) == 0\<close>: the first \<open>n\<close> characters agree up to case, or both
  strings end at the same earlier place.
\<close>

definition strncasecmp_eq :: "string \<Rightarrow> string \<Rightarrow> nat \<Rightarrow> bool" where
  "strncasecmp_eq a b n = (map tolower (take n a) = map tolower (take n b))"

text \<open>\<^verbatim>\<open>%d\<close> of a value that is not negative.\<close>

fun dec_digits :: "nat \<Rightarrow> string" where
  "dec_digits n =
     (if n < 10 then [char_of (48 + n)]
      else dec_digits (n div 10) @ [char_of (48 + n mod 10)])"

declare dec_digits.simps [simp del]

text \<open>\<^verbatim>\<open>snprintf(buf, size, ..)\<close> stores at most \<open>size - 1\<close> characters of the text.\<close>

definition snprintf_stored :: "nat \<Rightarrow> string \<Rightarrow> string" where
  "snprintf_stored sz txt = take (sz - 1) txt"

text \<open>
  \<^verbatim>\<open>strncpy(field, src, sizeof(field) - 1)\<close> into a zeroed array: the field then holds
  the first \<open>size - 1\<close> characters of the source string.
\<close>

definition strncpy_field :: "nat \<Rightarrow> string \<Rightarrow> string" where
  "strncpy_field sz src = take (sz - 1) src"

section \<open>HTTP service (services/http\_service.c)\<close>

text \<open>
  What the compilation target fixes: the size of a \<^verbatim>\<open>char *\<close>, and the sizes of the
  character arrays of \<^verbatim>\<open>attack_log_t\<close>, whose declaration (\<^verbatim>\<open>attack_logger.h\<close>) is not
  among the sources. They are parameters of the model.
\<close>

record platform =
  ptr_size :: nat
  source_ip_size :: nat
  username_size :: nat
  password_size :: nat
  user_agent_size :: nat
  metadata_size :: nat

text \<open>
  Modelled from the spec: the array sizes of the missing \<^verbatim>\<open>attack_log_t\<close> declaration,
  from the field caps of section 6 (\<open>source_ip \<le> 16\<close>, \<open>username \<le> 64\<close>,
  \<open>password \<le> 64\<close>, \<open>user_agent \<le> 255\<close>, \<open>metadata \<le> 255\<close>; the last two hold 255
  characters and the terminator). The ESP32 is a 32-bit target: pointers take 4 bytes.
\<close>

definition esp32 :: platform where
  "esp32 = \<lparr>ptr_size = 4, source_ip_size = 16, username_size = 64, password_size = 64,
     user_agent_size = 256, metadata_size = 256\<rparr>"

text \<open>The same layout on a target with 8-byte pointers.\<close>

definition lp64 :: platform where
  "lp64 = esp32\<lparr>ptr_size := 8\<rparr>"

text \<open>The canned page, character for character.\<close>

definition FAKE_LOGIN_HTML :: string where
  "FAKE_LOGIN_HTML =
     ''<!DOCTYPE html>\<newline>''
     @ ''<html lang='en'>\<newline>''
     @ ''<head>\<newline>''
     @ ''    <meta charset='UTF-8'>\<newline>''
     @ ''    <meta name='viewport' content='width=device-width, initial-scale=1.0'>\<newline>''
     @ ''    <title>Router Admin Panel</title>\<newline>''
     @ ''    <style>\<newline>''
     @ ''        body { font-family: Arial, sans-serif; margin: 40px; }\<newline>''
     @ ''        .container { max-width: 400px; margin: 0 auto; padding: 20px; border: 1px solid #ccc; }\<newline>''
     @ ''        .error { color: red; margin-top: 10px; }\<newline>''
     @ ''    </style>\<newline>''
     @ ''</head>\<newline>''
     @ ''<body>\<newline>''
     @ ''    <div class='container'>\<newline>''
     @ ''        <h2>Router Administration</h2>\<newline>''
     @ ''        <div class='error'>Access Denied: Invalid credentials</div>\<newline>''
     @ ''        <p>Please contact your network administrator.</p>\<newline>''
     @ ''    </div>\<newline>''
     @ ''</body>\<newline>''
     @ ''</html>''"

text \<open>\<^verbatim>\<open>HTTP_RESPONSE_TEMPLATE\<close> filled with a status code, a reason and a body.\<close>

definition http_response_text :: "nat \<Rightarrow> string \<Rightarrow> string \<Rightarrow> string" where
  "http_response_text code reason body =
     ''HTTP/1.1 '' @ dec_digits code @ '' '' @ reason @ crlf
     @ ''Content-Type: text/html'' @ crlf
     @ ''Content-Length: '' @ dec_digits (length body) @ crlf
     @ ''Connection: close'' @ crlf
     @ ''Server: Apache/2.4.41 (Ubuntu)'' @ crlf
     @ crlf
     @ body"

text \<open>\<^verbatim>\<open>send_fake_response\<close> and \<^verbatim>\<open>send_error_response\<close>: the bytes handed to \<^verbatim>\<open>send\<close>.\<close>

definition send_fake_response :: string where
  "send_fake_response = snprintf_stored 2048 (http_response_text 403 ''Forbidden'' FAKE_LOGIN_HTML)"

definition error_body :: string where
  "error_body = ''<html><body><h1>Error</h1><p>An error occurred.</p></body></html>''"

definition send_error_response :: "nat \<Rightarrow> string \<Rightarrow> string" where
  "send_error_response code message = snprintf_stored 512 (http_response_text code message error_body)"

text \<open>
  \<^verbatim>\<open>sscanf(data, "%15s %127s", method, path)\<close>: each \<^verbatim>\<open>%s\<close> skips white space and
  takes the characters up to the next white space, at most its width; both arrays
  start zeroed, so a directive that reads nothing leaves the empty string.
\<close>

definition sscanf_method_path :: "string \<Rightarrow> string \<times> string" where
  "sscanf_method_path d =
     (let d1 = dropWhile isspace d;
          method = take 15 (takeWhile (\<lambda>c. \<not> isspace c) d1);
          d2 = dropWhile isspace (drop (length method) d1);
          path = take 127 (takeWhile (\<lambda>c. \<not> isspace c) d2)
      in (method, path))"

text \<open>
  The value copied out of a header: \<open>v\<close> is the position after the name and the
  spaces, \<open>old\<close> what the array holds. Nothing is copied when no CRLF follows or the
  value has 255 characters or more.
\<close>

definition header_value :: "string \<Rightarrow> string \<Rightarrow> string" where
  "header_value v old =
     (case strstr v crlf of
        None \<Rightarrow> old
      | Some e \<Rightarrow> if length v - length e < 255 then take (length v - length e) v else old)"

lemma strstr_length: "strstr hay needle = Some s \<Longrightarrow> length s \<le> length hay"
  by (induction hay) (auto split: if_splits)

lemma strstr_starts: "strstr hay needle = Some s \<Longrightarrow> take (length needle) s = needle"
  by (induction hay) (auto split: if_splits)

lemma strstr_crlf_shrinks: "strstr hay crlf = Some s \<Longrightarrow> length (drop 2 s) < length hay"
proof -
  assume a: "strstr hay crlf = Some s"
  have "length (take (length crlf) s) = length crlf"
    using strstr_starts [OF a] by simp
  then have "2 \<le> length s"
    by (simp add: crlf_def)
  then show ?thesis
    using strstr_length [OF a] by simp
qed

text \<open>
  The header loop of \<^verbatim>\<open>parse_http_request\<close>: \<open>ptr\<close> is the scanning position, \<open>ua\<close>
  and \<open>au\<close> are the contents of \<^verbatim>\<open>user_agent\<close> and \<^verbatim>\<open>authorization\<close>.
\<close>

function parse_headers :: "string \<Rightarrow> string \<Rightarrow> string \<Rightarrow> string \<times> string" where
  "parse_headers ptr ua au =
     (if ptr = [] then (ua, au)
      else case strstr ptr crlf of
        None \<Rightarrow> (ua, au)
      | Some found \<Rightarrow>
          if strncasecmp_eq (drop 2 found) ''User-Agent:'' 11 then
            parse_headers (dropWhile (\<lambda>c. c = CHR '' '') (drop 11 (drop 2 found)))
              (header_value (dropWhile (\<lambda>c. c = CHR '' '') (drop 11 (drop 2 found))) ua) au
          else if strncasecmp_eq (drop 2 found) ''Authorization:'' 14 then
            parse_headers (dropWhile (\<lambda>c. c = CHR '' '') (drop 14 (drop 2 found)))
              ua (header_value (dropWhile (\<lambda>c. c = CHR '' '') (drop 14 (drop 2 found))) au)
          else if take 2 (drop 2 found) = crlf then (ua, au)
          else parse_headers (drop 2 found) ua au)"
  by pat_completeness auto
termination
proof (relation "measure (\<lambda>(ptr, ua, au). length ptr)")
  show "wf (measure (\<lambda>(ptr, ua, au). length ptr))"
    by simp
next
  fix ptr ua au :: string and found
  assume "strstr ptr crlf = Some found"
  then have "length (drop 2 found) < length ptr"
    by (rule strstr_crlf_shrinks)
  moreover have "length (dropWhile (\<lambda>c. c = CHR '' '') (drop 11 (drop 2 found))) \<le> length (drop 2 found)"
    using length_dropWhile_le [of "\<lambda>c. c = CHR '' ''" "drop 11 (drop 2 found)"] by simp
  ultimately show "((dropWhile (\<lambda>c. c = CHR '' '') (drop 11 (drop 2 found)),
       header_value (dropWhile (\<lambda>c. c = CHR '' '') (drop 11 (drop 2 found))) ua, au),
      ptr, ua, au) \<in> measure (\<lambda>(ptr, ua, au). length ptr)"
    by simp
next
  fix ptr ua au :: string and found
  assume "strstr ptr crlf = Some found"
  then have "length (drop 2 found) < length ptr"
    by (rule strstr_crlf_shrinks)
  moreover have "length (dropWhile (\<lambda>c. c = CHR '' '') (drop 14 (drop 2 found))) \<le> length (drop 2 found)"
    using length_dropWhile_le [of "\<lambda>c. c = CHR '' ''" "drop 14 (drop 2 found)"] by simp
  ultimately show "((dropWhile (\<lambda>c. c = CHR '' '') (drop 14 (drop 2 found)), ua,
       header_value (dropWhile (\<lambda>c. c = CHR '' '') (drop 14 (drop 2 found))) au),
      ptr, ua, au) \<in> measure (\<lambda>(ptr, ua, au). length ptr)"
    by simp
next
  fix ptr ua au :: string and found
  assume "strstr ptr crlf = Some found"
  then have "length (drop 2 found) < length ptr"
    by (rule strstr_crlf_shrinks)
  then show "((drop 2 found, ua, au), ptr, ua, au) \<in> measure (\<lambda>(ptr, ua, au). length ptr)"
    by simp
qed

declare parse_headers.simps [simp del]

text \<open>
  \<^verbatim>\<open>parse_http_request\<close>: \<open>None\<close> for \<^verbatim>\<open>false\<close>, else the contents of \<^verbatim>\<open>method\<close>,
  \<^verbatim>\<open>path\<close>, \<^verbatim>\<open>user_agent\<close> and \<^verbatim>\<open>authorization\<close>. The argument is \<open>None\<close> for a NULL
  \<^verbatim>\<open>data\<close>, else the bytes of the buffer.
\<close>

definition parse_http_request :: "string option \<Rightarrow> (string \<times> string \<times> string \<times> string) option" where
  "parse_http_request data =
     (case data of
        None \<Rightarrow> None
      | Some bytes \<Rightarrow>
          if length (cstr bytes) < 10 then None
          else
            let mp = sscanf_method_path (cstr bytes);
                hs = parse_headers (cstr bytes) [] []
            in Some (fst mp, snd mp, fst hs, snd hs))"

text \<open>\<^verbatim>\<open>url_decode\<close>, in place in the source: the characters written before the final NUL.\<close>

fun url_decode :: "string \<Rightarrow> string" where
  "url_decode [] = []"
| "url_decode (c # cs) =
     (if c = CHR ''%'' \<and> (case cs of h1 # h2 # rest \<Rightarrow> isxdigit h1 \<and> isxdigit h2 | _ \<Rightarrow> False)
      then char_of (hexval (cs ! 0) * 16 + hexval (cs ! 1)) # url_decode (drop 2 cs)
      else if c = CHR ''+'' then CHR '' '' # url_decode cs
      else c # url_decode cs)"

text \<open>
  One round of a loop of \<^verbatim>\<open>extract_credentials_from_post\<close>: \<open>cur\<close> is what the target
  array holds. \<^verbatim>\<open>sizeof(username)\<close> and \<^verbatim>\<open>sizeof(password)\<close> are taken of \<^verbatim>\<open>char *\<close>
  parameters, so the bound on the length is the pointer size less one.
\<close>

definition field_length :: "string \<Rightarrow> nat" where
  "field_length start =
     (case strchr start (CHR ''&'') of
        Some e \<Rightarrow> length start - length e
      | None \<Rightarrow>
          (case strchr start (CHR '' '') of
             Some e \<Rightarrow> length start - length e
           | None \<Rightarrow> length start))"

definition extract_field :: "platform \<Rightarrow> string \<Rightarrow> string \<Rightarrow> string \<Rightarrow> string" where
  "extract_field P data pattern cur =
     (case strstr data pattern of
        None \<Rightarrow> cur
      | Some found \<Rightarrow>
          let start = drop (length pattern) found;
              len = field_length start
          in if len < ptr_size P - 1 then cstr (url_decode (take len start)) else cur)"

definition username_patterns :: "string list" where
  "username_patterns = [''username='', ''user='', ''login='', ''uname='']"

definition password_patterns :: "string list" where
  "password_patterns = [''password='', ''pass='', ''pwd='', ''passwd='']"

definition extract_credentials_from_post ::
    "platform \<Rightarrow> string \<Rightarrow> string \<times> string \<Rightarrow> string \<times> string" where
  "extract_credentials_from_post P data up =
     (foldl (\<lambda>u pat. extract_field P data pat u) (fst up) username_patterns,
      foldl (\<lambda>p pat. extract_field P data pat p) (snd up) password_patterns)"

text \<open>
  \<^verbatim>\<open>log_http_attack\<close>: the record handed to \<^verbatim>\<open>attack_logger_log\<close>. \<open>hash\<close> is
  \<^verbatim>\<open>generate_md5_hash\<close> (its file is not among the sources), \<open>now\<close> is \<^verbatim>\<open>time(NULL)\<close>,
  \<open>payload\<close> the bytes of the request buffer, whose length is \<^verbatim>\<open>payload_len\<close>.
\<close>

definition log_http_attack ::
    "platform \<Rightarrow> (string \<Rightarrow> string) \<Rightarrow> int \<Rightarrow> string \<Rightarrow> 16 word \<Rightarrow> string \<Rightarrow> string \<Rightarrow>
     string \<Rightarrow> string \<Rightarrow> string \<Rightarrow> attack_log_t" where
  "log_http_attack P hash now client_ip port method path ua authorization payload =
     (let pw0 = (if authorization \<noteq> [] then strncpy_field (password_size P) authorization
                 else strncpy_field (password_size P) ''N/A'');
          up = (if method = ''POST''
                then extract_credentials_from_post P (cstr payload)
                       (strncpy_field (username_size P) ''N/A'', pw0)
                else (strncpy_field (username_size P) ''N/A'', pw0))
      in \<lparr>timestamp = now,
          source_ip = strncpy_field (source_ip_size P) client_ip,
          target_port = port,
          service = ''HTTP'',
          username = fst up,
          password = snd up,
          user_agent = strncpy_field (user_agent_size P) ua,
          payload_hash = hash (take (if length payload > 512 then 512 else length payload) payload),
          metadata = snprintf_stored (metadata_size P) (''Method: '' @ method @ '', Path: '' @ path)\<rparr>)"

text \<open>
  \<^verbatim>\<open>http_service_handle_request\<close>: what one call sends on the socket, writes to the
  console at warning and information level, and hands to the attack logger.
\<close>

datatype log_level = LOGW | LOGI

record http_outcome =
  sent :: "string list"
  console :: "(log_level \<times> string) list"
  logged :: "attack_log_t list"

definition suspicious_path :: "string \<Rightarrow> bool" where
  "suspicious_path path =
     (strstr path ''/shell'' \<noteq> None \<or> strstr path ''/cmd'' \<noteq> None
      \<or> strstr path ''/exec'' \<noteq> None \<or> strstr path ''..'' \<noteq> None)"

definition http_service_handle_request ::
    "platform \<Rightarrow> (string \<Rightarrow> string) \<Rightarrow> int \<Rightarrow> string option \<Rightarrow> string \<Rightarrow> 16 word \<Rightarrow> http_outcome" where
  "http_service_handle_request P hash now data client_ip port =
     (case parse_http_request data of
        None \<Rightarrow>
          \<lparr>sent = [send_error_response 400 ''Bad Request''],
           console = [(LOGW, ''Invalid HTTP request from '' @ client_ip)],
           logged = []\<rparr>
      | Some (method, path, ua, authorization) \<Rightarrow>
          \<lparr>sent = [send_fake_response],
           console =
             (LOGI, ''HTTP '' @ method @ '' '' @ path @ '' from '' @ client_ip
                    @ '' (User-Agent: '' @ ua @ '')'')
             # (if suspicious_path path
                then [(LOGW, ''Potential path traversal attack from '' @ client_ip @ '': '' @ path)]
                else []),
           logged = [log_http_attack P hash now client_ip port method path ua authorization
                       (case data of Some bytes \<Rightarrow> bytes | None \<Rightarrow> [])]\<rparr>)"

text \<open>Whether \<^verbatim>\<open>parse_http_request\<close> fails: a NULL buffer, or a string of fewer than 10 characters.\<close>

definition request_too_short :: "string option \<Rightarrow> bool" where
  "request_too_short data = (case data of None \<Rightarrow> True | Some bytes \<Rightarrow> length (cstr bytes) < 10)"

text \<open>
  The request-line grammar in the spec's words, for comparison with the parser:
  \<^verbatim>\<open>METHOD SP PATH SP VERSION CRLF\<close> with a method of at most 15 and a path of at most
  127 characters, each part a non-empty run of characters other than white space.
\<close>

definition spec_token :: "string \<Rightarrow> bool" where
  "spec_token t = (t \<noteq> [] \<and> list_all (\<lambda>c. \<not> isspace c) t)"

definition spec_request_line :: "string \<Rightarrow> bool" where
  "spec_request_line d =
     (let m = takeWhile (\<lambda>c. c \<noteq> CHR '' '') d;
          d1 = drop (length m) d;
          p = takeWhile (\<lambda>c. c \<noteq> CHR '' '') (drop 1 d1);
          d2 = drop (length p) (drop 1 d1);
          v = takeWhile (\<lambda>c. c \<noteq> CR) (drop 1 d2);
          d3 = drop (length v) (drop 1 d2)
      in spec_token m \<and> length m \<le> 15 \<and> take 1 d1 = '' ''
         \<and> spec_token p \<and> length p \<le> 127 \<and> take 1 d2 = '' ''
         \<and> spec_token v \<and> take 2 d3 = crlf)"

text \<open>Sample requests.\<close>

definition scenario_2 :: string where
  "scenario_2 = ''GET /../../etc/passwd HTTP/1.0'' @ crlf @ crlf"

definition garbage_request :: string where
  "garbage_request = ''AAAAAAAAAAAA''"

definition tiny_request :: string where
  "tiny_request = ''G / H'' @ crlf"

definition long_credentials :: string where
  "long_credentials =
     ''POST /login HTTP/1.1'' @ crlf @ crlf @ ''username=administrator&password=12345678''"

text \<open>
  Header blocks, for stating what the header loop extracts. A header line is a
  non-empty run of characters without CR; the block is the lines, each followed by
  CRLF. \<open>scan_header\<close> says in the claim's terms what one line does to the two fields:
  a line whose first 11 (14) characters are \<^verbatim>\<open>User-Agent:\<close> (\<^verbatim>\<open>Authorization:\<close>) up to
  case gives its value, the rest of the line after the leading spaces, to the field
  when the value has fewer than 255 characters, and leaves the field alone otherwise.
\<close>

definition proper_line :: "string \<Rightarrow> bool" where
  "proper_line l = (l \<noteq> [] \<and> CR \<notin> set l)"

definition header_block :: "string list \<Rightarrow> string" where
  "header_block hs = concat (map (\<lambda>l. l @ crlf) hs)"

definition header_text :: "nat \<Rightarrow> string \<Rightarrow> string" where
  "header_text n l = dropWhile (\<lambda>c. c = CHR '' '') (drop n l)"

definition kept_value :: "string \<Rightarrow> string \<Rightarrow> string" where
  "kept_value v old = (if length v < 255 then v else old)"

definition scan_header :: "string \<times> string \<Rightarrow> string \<Rightarrow> string \<times> string" where
  "scan_header held l =
     (if strncasecmp_eq l ''User-Agent:'' 11
      then (kept_value (header_text 11 l) (fst held), snd held)
      else if strncasecmp_eq l ''Authorization:'' 14
      then (fst held, kept_value (header_text 14 l) (snd held))
      else held)"

definition header_fields :: "string list \<Rightarrow> string \<times> string" where
  "header_fields hs = foldl scan_header ([], []) hs"

text \<open>Sample requests with headers.\<close>

definition long_agent :: string where
  "long_agent = replicate 255 (CHR ''A'')"

definition long_agent_request :: string where
  "long_agent_request = ''GET / HTTP/1.1'' @ crlf @ header_block [''User-Agent: '' @ long_agent] @ crlf"

definition long_token :: string where
  "long_token = replicate 255 (CHR ''B'')"

definition long_token_request :: string where
  "long_token_request =
     ''GET / HTTP/1.1'' @ crlf @ header_block [''Authorization: '' @ long_token] @ crlf"

definition basic_auth_headers :: "string list" where
  "basic_auth_headers = [''Host: x'', ''user-agent:  curl/7.81'', ''AUTHORIZATION: Basic YTpi'']"

definition basic_auth_request :: string where
  "basic_auth_request = ''GET /admin HTTP/1.1'' @ crlf @ header_block basic_auth_headers @ crlf"

text \<open>Scenario 1 of the spec: the request, and a stand-in for the digest function.\<close>

definition scenario_1 :: string where
  "scenario_1 =
     ''POST /login HTTP/1.1'' @ crlf
     @ ''Host: x'' @ crlf
     @ ''User-Agent: curl/7.81'' @ crlf
     @ ''Content-Length: 27'' @ crlf
     @ crlf
     @ ''username=admin&password=1234''"

definition no_hash :: "string \<Rightarrow> string" where
  "no_hash bytes = []"

section \<open>Broken-down time and the JSON rendering (logging/attack\_logger.c)\<close>

text \<open>
  Modelled from the C library's contract: \<^verbatim>\<open>struct tm\<close>, \<^verbatim>\<open>gmtime\<close>, \<^verbatim>\<open>localtime\<close> and
  \<^verbatim>\<open>strftime\<close> belong to the C library, not to the repository. A \<^verbatim>\<open>time_t\<close> counts
  seconds since 1970-01-01T00:00:00 UTC; \<open>broken_down\<close> is its date and time of day in
  the proleptic Gregorian calendar. The fields of \<^verbatim>\<open>struct tm\<close> are C \<^verbatim>\<open>int\<close>s, the year
  counted from 1900: \<^verbatim>\<open>gmtime\<close> returns NULL (\<open>None\<close>) when that count does not fit an
  \<^verbatim>\<open>int\<close>. \<^verbatim>\<open>localtime\<close> does the same after adding the offset of the device's time
  zone, \<open>utc_offset\<close> seconds east of Greenwich, which the environment fixes (\<^verbatim>\<open>TZ\<close>)
  and the model takes as a parameter.
\<close>

record tm =
  tm_sec :: int
  tm_min :: int
  tm_hour :: int
  tm_mday :: int
  tm_mon :: int
  tm_year :: int

definition civil_from_days :: "int \<Rightarrow> int \<times> int \<times> int" where
  "civil_from_days days =
     (let z = days + 719468;
          era = z div 146097;
          doe = z - era * 146097;
          yoe = (doe - doe div 1460 + doe div 36524 - doe div 146096) div 365;
          doy = doe - (365 * yoe + yoe div 4 - yoe div 100);
          mp = (5 * doy + 2) div 153;
          d = doy - (153 * mp + 2) div 5 + 1;
          m = (if mp < 10 then mp + 3 else mp - 9);
          y = yoe + era * 400 + (if m \<le> 2 then 1 else 0)
      in (y, m, d))"

definition broken_down :: "int \<Rightarrow> tm" where
  "broken_down t =
     (let ymd = civil_from_days (t div 86400);
          s = t mod 86400
      in \<lparr>tm_sec = s mod 60, tm_min = (s div 60) mod 60, tm_hour = s div 3600,
          tm_mday = snd (snd ymd), tm_mon = fst (snd ymd) - 1, tm_year = fst ymd - 1900\<rparr>)"

definition fits_c_int :: "int \<Rightarrow> bool" where
  "fits_c_int i = (- 2147483648 \<le> i \<and> i \<le> 2147483647)"

definition gmtime :: "int \<Rightarrow> tm option" where
  "gmtime t = (if fits_c_int (tm_year (broken_down t)) then Some (broken_down t) else None)"

definition localtime :: "int \<Rightarrow> int \<Rightarrow> tm option" where
  "localtime utc_offset t = gmtime (t + utc_offset)"

text \<open>The sum \<^verbatim>\<open>tm_year + 1900\<close> as a 32-bit \<^verbatim>\<open>int\<close> holds it: it wraps around.\<close>

definition wrap_c_int :: "int \<Rightarrow> int" where
  "wrap_c_int i = (i + 2147483648) mod 4294967296 - 2147483648"

definition dec_int :: "int \<Rightarrow> string" where
  "dec_int i = (if i < 0 then CHR ''-'' # dec_digits (nat (- i)) else dec_digits (nat i))"

definition two_digits :: "int \<Rightarrow> string" where
  "two_digits i = (if i < 10 then CHR ''0'' # dec_int i else dec_int i)"

text \<open>The text of the format \<^verbatim>\<open>"%Y-%m-%dT%H:%M:%SZ"\<close> for a year and the other fields; the \<open>Z\<close> is a literal of the format.\<close>

definition iso_text :: "int \<Rightarrow> tm \<Rightarrow> string" where
  "iso_text year b =
     dec_int year @ ''-'' @ two_digits (tm_mon b + 1) @ ''-'' @ two_digits (tm_mday b)
     @ ''T'' @ two_digits (tm_hour b) @ '':'' @ two_digits (tm_min b) @ '':''
     @ two_digits (tm_sec b) @ ''Z''"

text \<open>
  \<^verbatim>\<open>strftime(time_str, sizeof(time_str), "%Y-%m-%dT%H:%M:%SZ", timeinfo)\<close> with
  \<^verbatim>\<open>char time_str[32]\<close>: the string the array holds, \<open>None\<close> when the text and its
  terminator do not fit, where \<^verbatim>\<open>strftime\<close> returns 0 and leaves the array's contents
  indeterminate.
\<close>

definition strftime_iso :: "tm \<Rightarrow> string option" where
  "strftime_iso b =
     (if length (iso_text (wrap_c_int (tm_year b + 1900)) b) < 32
      then Some (iso_text (wrap_c_int (tm_year b + 1900)) b)
      else None)"

text \<open>The ISO 8601 rendering of \<open>t\<close> in UTC that the spec asks for.\<close>

definition iso8601_utc :: "int \<Rightarrow> string" where
  "iso8601_utc t = iso_text (tm_year (broken_down t) + 1900) (broken_down t)"

definition DQ :: char where
  "DQ = CHR 0x22"

definition json_string_field :: "string \<Rightarrow> string \<Rightarrow> string" where
  "json_string_field key val = [DQ] @ key @ [DQ] @ '':'' @ [DQ] @ val @ [DQ]"

definition json_number_field :: "string \<Rightarrow> nat \<Rightarrow> string" where
  "json_number_field key n = [DQ] @ key @ [DQ] @ '':'' @ dec_digits n"

text \<open>
  The text the \<^verbatim>\<open>snprintf\<close> of \<^verbatim>\<open>attack_logger_format_json\<close> formats, \<open>time_str\<close> being
  the string in the array of that name: each \<^verbatim>\<open>%s\<close> copies its string as it is.
\<close>

definition json_text :: "string \<Rightarrow> attack_log_t \<Rightarrow> string" where
  "json_text time_str r =
     ''{'' @ json_string_field ''timestamp'' time_str
     @ '','' @ json_string_field ''source_ip'' (source_ip r)
     @ '','' @ json_number_field ''target_port'' (unat (target_port r))
     @ '','' @ json_string_field ''service'' (service r)
     @ '','' @ json_string_field ''username'' (username r)
     @ '','' @ json_string_field ''password'' (password r)
     @ '','' @ json_string_field ''user_agent'' (user_agent r)
     @ '','' @ json_string_field ''payload_hash'' (payload_hash r)
     @ '','' @ json_string_field ''metadata'' (metadata r)
     @ ''}''"

text \<open>
  \<^verbatim>\<open>attack_logger_format_json(log, buffer, buffer_size)\<close>: \<open>None\<close> is a NULL pointer,
  \<open>Some b\<close> a buffer holding the string \<open>b\<close>. A call that returns gives the status and
  the string the buffer holds afterwards. The result of \<^verbatim>\<open>localtime\<close> goes to
  \<^verbatim>\<open>strftime\<close> unchecked, and the result of \<^verbatim>\<open>strftime\<close> is not looked at: the call
  faults when \<^verbatim>\<open>localtime\<close> returns NULL, and reads an indeterminate array when the
  time does not fit \<^verbatim>\<open>time_str\<close>. \<^verbatim>\<open>written\<close> is the length of the whole text and is
  never negative.
\<close>

datatype fault = Null_timeinfo | Indeterminate_time_str

definition attack_logger_format_json ::
    "int \<Rightarrow> attack_log_t option \<Rightarrow> string option \<Rightarrow> nat \<Rightarrow> fault + esp_err_t \<times> string option" where
  "attack_logger_format_json utc_offset log buffer buffer_size =
     (case log of
        None \<Rightarrow> Inr (ESP_ERR_INVALID_ARG, buffer)
      | Some r \<Rightarrow>
          (case buffer of
             None \<Rightarrow> Inr (ESP_ERR_INVALID_ARG, buffer)
           | Some b \<Rightarrow>
               (case localtime utc_offset (timestamp r) of
                  None \<Rightarrow> Inl Null_timeinfo
                | Some timeinfo \<Rightarrow>
                    (case strftime_iso timeinfo of
                       None \<Rightarrow> Inl Indeterminate_time_str
                     | Some time_str \<Rightarrow>
                         let written = length (json_text time_str r);
                             stored = (if buffer_size = 0 then b
                                       else snprintf_stored buffer_size (json_text time_str r))
                         in if written \<ge> buffer_size then Inr (ESP_ERR_INVALID_SIZE, Some stored)
                            else Inr (ESP_OK, Some stored)))))"









text \<open>Sample records.\<close>

definition rec_epoch :: attack_log_t where
  "rec_epoch = \<lparr>timestamp = 0, source_ip = ''10.0.0.1'', target_port = 80, service = ''HTTP'',
     username = ''N/A'', password = ''N/A'', user_agent = ''curl/7.81'',
     payload_hash = ''d41d8cd98f00b204e9800998ecf8427e'', metadata = ''Method: GET, Path: /''\<rparr>"



definition rec_wrapped_year :: attack_log_t where
  "rec_wrapped_year = rec_epoch\<lparr>timestamp := 67767976233532800\<rparr>"

section \<open>Honeypot core (honeypot.c)\<close>

text \<open>
  \<^verbatim>\<open>honeypot_stats_t\<close> and \<^verbatim>\<open>honeypot_config_t\<close> of \<^verbatim>\<open>honeypot.h\<close>; the counters are
  \<^verbatim>\<open>uint32_t\<close>. (\<open>stats_start_time\<close> is the field \<^verbatim>\<open>start_time\<close>.)
\<close>

record honeypot_stats_t =
  total_connections :: "32 word"
  attacks_logged :: "32 word"
  rate_limited :: "32 word"
  http_attacks :: "32 word"
  telnet_attacks :: "32 word"
  ftp_attacks :: "32 word"
  mqtt_attacks :: "32 word"
  stats_start_time :: int

record honeypot_config_t =
  ports :: "16 word list"
  port_count :: "8 word"
  max_connections :: "32 word"
  connection_timeout_ms :: "32 word"
  enable_logging :: bool
  enable_remote_upload :: bool

text \<open>The file's statics; \<open>task_handle_set\<close> says whether \<^verbatim>\<open>honeypot_task_handle\<close> is non-NULL.\<close>

record honeypot =
  current_config :: honeypot_config_t
  stats :: honeypot_stats_t
  task_handle_set :: bool
  honeypot_running :: bool

definition zero_stats :: honeypot_stats_t where
  "zero_stats = \<lparr>total_connections = 0, attacks_logged = 0, rate_limited = 0, http_attacks = 0,
     telnet_attacks = 0, ftp_attacks = 0, mqtt_attacks = 0, stats_start_time = 0\<rparr>"

definition honeypot_boot :: honeypot where
  "honeypot_boot =
     \<lparr>current_config = \<lparr>ports = [80, 23, 21, 1883, 8080, 2323], port_count = 6,
          max_connections = 6, connection_timeout_ms = 10000,
          enable_logging = True, enable_remote_upload = False\<rparr>,
      stats = zero_stats, task_handle_set = False, honeypot_running = False\<rparr>"

text \<open>
  The public operations. The flags are the results of the calls into files that are
  not among the sources: \<^verbatim>\<open>attack_logger_init\<close> and \<^verbatim>\<open>rate_limiter_init\<close> returning
  \<^verbatim>\<open>ESP_OK\<close>, \<^verbatim>\<open>xTaskCreate\<close> returning \<^verbatim>\<open>pdPASS\<close>; \<open>now\<close> is \<^verbatim>\<open>time(NULL)\<close>.
\<close>

definition honeypot_init :: "bool \<Rightarrow> bool \<Rightarrow> int \<Rightarrow> honeypot \<Rightarrow> esp_err_t \<times> honeypot" where
  "honeypot_init logger_ok limiter_ok now s =
     (if \<not> logger_ok then (ESP_FAIL, s)
      else if \<not> limiter_ok then (ESP_FAIL, s)
      else (ESP_OK, s\<lparr>stats := (stats s)\<lparr>stats_start_time := now\<rparr>\<rparr>))"

definition honeypot_start :: "bool \<Rightarrow> honeypot \<Rightarrow> esp_err_t \<times> honeypot" where
  "honeypot_start task_created s =
     (if honeypot_running s then (ESP_OK, s)
      else if \<not> task_created then (ESP_FAIL, s)
      else (ESP_OK, s\<lparr>task_handle_set := True, honeypot_running := True\<rparr>))"

definition honeypot_stop :: "honeypot \<Rightarrow> esp_err_t \<times> honeypot" where
  "honeypot_stop s =
     (if \<not> honeypot_running s then (ESP_OK, s)
      else (ESP_OK, s\<lparr>honeypot_running := False, task_handle_set := False\<rparr>))"

definition honeypot_get_stats :: "bool \<Rightarrow> honeypot \<Rightarrow> esp_err_t \<times> honeypot_stats_t option" where
  "honeypot_get_stats out_ok s = (if \<not> out_ok then (ESP_ERR_INVALID_ARG, None) else (ESP_OK, Some (stats s)))"

definition honeypot_reset_stats :: "int \<Rightarrow> honeypot \<Rightarrow> esp_err_t \<times> honeypot" where
  "honeypot_reset_stats now s = (ESP_OK, s\<lparr>stats := zero_stats\<lparr>stats_start_time := now\<rparr>\<rparr>)"

definition honeypot_set_config :: "honeypot_config_t option \<Rightarrow> honeypot \<Rightarrow> esp_err_t \<times> honeypot" where
  "honeypot_set_config config s =
     (case config of
        None \<Rightarrow> (ESP_ERR_INVALID_ARG, s)
      | Some c \<Rightarrow> (ESP_OK, s\<lparr>current_config := c\<rparr>))"

definition honeypot_get_config :: "bool \<Rightarrow> honeypot \<Rightarrow> esp_err_t \<times> honeypot_config_t option" where
  "honeypot_get_config out_ok s =
     (if \<not> out_ok then (ESP_ERR_INVALID_ARG, None) else (ESP_OK, Some (current_config s)))"

text \<open>
  \<^verbatim>\<open>handle_incoming_connection\<close>: the flags are the answers of \<^verbatim>\<open>rate_limiter_check\<close>,
  \<^verbatim>\<open>socket_manager_can_accept_connection\<close> and \<^verbatim>\<open>socket_manager_add_connection\<close>
  (\<^verbatim>\<open>== ESP_OK\<close>).
\<close>

definition handle_incoming_connection :: "bool \<Rightarrow> bool \<Rightarrow> bool \<Rightarrow> honeypot \<Rightarrow> honeypot" where
  "handle_incoming_connection rate_ok can_accept added s =
     (if \<not> rate_ok then s\<lparr>stats := (stats s)\<lparr>rate_limited := rate_limited (stats s) + 1\<rparr>\<rparr>
      else if \<not> can_accept then s
      else if \<not> added then s
      else s\<lparr>stats := (stats s)\<lparr>total_connections := total_connections (stats s) + 1\<rparr>\<rparr>)"

definition update_statistics :: "16 word \<Rightarrow> honeypot \<Rightarrow> honeypot" where
  "update_statistics port s =
     (let st = (stats s)\<lparr>attacks_logged := attacks_logged (stats s) + 1\<rparr>
      in s\<lparr>stats :=
           (if port = 80 \<or> port = 8080 then st\<lparr>http_attacks := http_attacks st + 1\<rparr>
            else if port = 23 \<or> port = 2323 then st\<lparr>telnet_attacks := telnet_attacks st + 1\<rparr>
            else if port = 21 then st\<lparr>ftp_attacks := ftp_attacks st + 1\<rparr>
            else if port = 1883 then st\<lparr>mqtt_attacks := mqtt_attacks st + 1\<rparr>
            else st)\<rparr>)"

text \<open>
  The steps of a run: a call of a public operation, or a step of the reactor loop of
  \<^verbatim>\<open>honeypot_task\<close> (an accepted socket handed to \<^verbatim>\<open>handle_incoming_connection\<close>, the
  periodic \<^verbatim>\<open>cleanup_stale_connections\<close>, which changes none of this file's statics,
  and \<^verbatim>\<open>update_statistics\<close>).
\<close>

datatype hp_event =
    HoneypotInit bool bool int
  | HoneypotStart bool
  | HoneypotStop
  | GetStats bool
  | ResetStats int
  | SetConfig "honeypot_config_t option"
  | GetConfig bool
  | IncomingConnection bool bool bool
  | CleanupStale
  | UpdateStatistics "16 word"

fun honeypot_step :: "hp_event \<Rightarrow> honeypot \<Rightarrow> honeypot" where
  "honeypot_step (HoneypotInit logger_ok limiter_ok now) s = snd (honeypot_init logger_ok limiter_ok now s)"
| "honeypot_step (HoneypotStart task_created) s = snd (honeypot_start task_created s)"
| "honeypot_step HoneypotStop s = snd (honeypot_stop s)"
| "honeypot_step (GetStats out_ok) s = s"
| "honeypot_step (ResetStats now) s = snd (honeypot_reset_stats now s)"
| "honeypot_step (SetConfig config) s = snd (honeypot_set_config config s)"
| "honeypot_step (GetConfig out_ok) s = s"
| "honeypot_step (IncomingConnection rate_ok can_accept added) s =
     handle_incoming_connection rate_ok can_accept added s"
| "honeypot_step CleanupStale s = s"
| "honeypot_step (UpdateStatistics port) s = update_statistics port s"

fun honeypot_run :: "hp_event list \<Rightarrow> honeypot \<Rightarrow> honeypot" where
  "honeypot_run [] s = s"
| "honeypot_run (ev # evs) s = honeypot_run evs (honeypot_step ev s)"

fun is_reset :: "hp_event \<Rightarrow> bool" where
  "is_reset (ResetStats now) = True"
| "is_reset _ = False"

fun admitted :: "hp_event \<Rightarrow> bool" where
  "admitted (IncomingConnection rate_ok can_accept added) = (rate_ok \<and> can_accept \<and> added)"
| "admitted _ = False"

section \<open>Properties of the attack logger\<close>

subsection \<open>The ring indices\<close>







lemma count_bounded_step:
  "buffer_count s \<le> MAX_LOG_ENTRIES \<Longrightarrow> load_bounded op \<Longrightarrow>
   buffer_count (logger_step op s) \<le> MAX_LOG_ENTRIES"
  by (cases op)
     (auto simp: attack_logger_init_def attack_logger_log_def attack_logger_clear_def Let_def
           split: option.splits)

lemma count_bounded_any_run:
  "buffer_count s \<le> MAX_LOG_ENTRIES \<Longrightarrow> list_all load_bounded ops \<Longrightarrow>
   buffer_count (logger_run ops s) \<le> MAX_LOG_ENTRIES"
  by (induction ops arbitrary: s) (simp_all add: count_bounded_step)




subsection \<open>Reading the ring back\<close>

lemma ring_mod_first: "h < c \<Longrightarrow> (Suc h mod c + c - Suc 0) mod c = h" for c :: nat
  by (auto simp: mod_if not_less)

lemma ring_mod_shift:
  "h < c \<Longrightarrow> Suc i < c \<Longrightarrow> (Suc h mod c + c - Suc (Suc i)) mod c = (h + c - Suc i) mod c" for c :: nat
  by (auto simp: mod_if not_less)

lemma ring_mod_other: "h < c \<Longrightarrow> Suc i < c \<Longrightarrow> (h + c - Suc i) mod c \<noteq> h" for c :: nat
  by (auto simp: mod_if not_less)

lemma ring_mod_loaded: "n \<le> c \<Longrightarrow> i < n \<Longrightarrow> (n mod c + c - Suc i) mod c = n - Suc i" for c :: nat
  by (auto simp: mod_if not_less)

lemma ring_mod_prev:
  "h < c \<Longrightarrow> (if h = 0 then c - 1 else h - 1) = (h + c - Suc 0) mod c" for c :: nat
  by (auto simp: mod_if not_less)

lemma ring_mod_prev_shift:
  "h < c \<Longrightarrow> Suc i < c \<Longrightarrow>
   ((if h = 0 then c - 1 else h - 1) + c - Suc i) mod c = (h + c - Suc (Suc i)) mod c" for c :: nat
  by (auto simp: mod_if not_less)

lemma copy_recent_map:
  "idx < MAX_LOG_ENTRIES \<Longrightarrow> k \<le> MAX_LOG_ENTRIES \<Longrightarrow>
   copy_recent buf idx k = map (\<lambda>i. buf ! back_index idx i) [0..<k]"
proof (induction k arbitrary: idx)
  case 0
  then show ?case by simp
next
  case (Suc k)
  define idx' where "idx' = (if idx = 0 then MAX_LOG_ENTRIES - 1 else idx - 1)"
  have lt: "idx' < MAX_LOG_ENTRIES"
    using Suc.prems by (auto simp: idx'_def)
  have first: "idx' = back_index idx 0"
    using Suc.prems unfolding idx'_def back_index_def by (simp add: ring_mod_prev)
  have shift: "back_index idx' i = back_index idx (Suc i)" if "i < k" for i
    using Suc.prems that unfolding idx'_def back_index_def by (intro ring_mod_prev_shift) simp_all
  have "copy_recent buf idx (Suc k) = buf ! idx' # copy_recent buf idx' k"
    by (simp add: idx'_def Let_def)
  also have "copy_recent buf idx' k = map (\<lambda>i. buf ! back_index idx' i) [0..<k]"
    using Suc.IH [OF lt] Suc.prems by simp
  also have "\<dots> = map (\<lambda>i. buf ! back_index idx (Suc i)) [0..<k]"
    using shift by simp
  finally show ?case
    by (simp add: first upt_conv_Cons map_Suc_upt [symmetric] del: upt_Suc)
qed

lemma ring_holds_boot: "ring_holds (logger_boot fl) []"
  by (simp add: ring_holds_def logger_boot_def MAX_LOG_ENTRIES_def)

lemma ring_holds_clear: "ring_holds s h \<Longrightarrow> ring_holds (snd (attack_logger_clear s)) []"
  by (simp add: ring_holds_def attack_logger_clear_def MAX_LOG_ENTRIES_def)

lemma back_index_new_head:
  "h < MAX_LOG_ENTRIES \<Longrightarrow> back_index (Suc h mod MAX_LOG_ENTRIES) 0 = h"
  unfolding back_index_def by (rule ring_mod_first)

lemma back_index_shift:
  "h < MAX_LOG_ENTRIES \<Longrightarrow> Suc i < MAX_LOG_ENTRIES \<Longrightarrow>
   back_index (Suc h mod MAX_LOG_ENTRIES) (Suc i) = back_index h i"
  unfolding back_index_def by (rule ring_mod_shift)

lemma back_index_other:
  "h < MAX_LOG_ENTRIES \<Longrightarrow> Suc i < MAX_LOG_ENTRIES \<Longrightarrow> back_index h i \<noteq> h"
  unfolding back_index_def by (rule ring_mod_other)

lemma back_index_lt: "back_index h i < MAX_LOG_ENTRIES"
  unfolding back_index_def MAX_LOG_ENTRIES_def by simp

lemma ring_holds_log:
  assumes "ring_holds s h"
  shows "ring_holds (snd (attack_logger_log (Some e) now s)) (h @ [e])"
proof -
  let ?s' = "snd (attack_logger_log (Some e) now s)"
  from assms have len: "length (log_buffer s) = MAX_LOG_ENTRIES"
    and hd: "buffer_head s < MAX_LOG_ENTRIES"
    and cnt: "buffer_count s = min MAX_LOG_ENTRIES (length h)"
    and ent: "\<And>i. i < buffer_count s \<Longrightarrow> log_buffer s ! back_index (buffer_head s) i = rev h ! i"
    by (simp_all add: ring_holds_def)
  have buf': "log_buffer ?s' = (log_buffer s)[buffer_head s := e]"
    and hd': "buffer_head ?s' = (buffer_head s + 1) mod MAX_LOG_ENTRIES"
    and cnt': "buffer_count ?s' = (if buffer_count s < MAX_LOG_ENTRIES then buffer_count s + 1 else buffer_count s)"
    by (simp_all add: attack_logger_log_def Let_def)
  have c1: "buffer_count ?s' = min MAX_LOG_ENTRIES (length (h @ [e]))"
    using cnt cnt' by auto
  have c2: "buffer_count ?s' \<le> MAX_LOG_ENTRIES" "buffer_count ?s' \<le> Suc (buffer_count s)"
    using cnt cnt' by auto
  have c3: "log_buffer ?s' ! back_index (buffer_head ?s') i = rev (h @ [e]) ! i"
    if "i < buffer_count ?s'" for i
  proof (cases i)
    case 0
    then show ?thesis using hd len by (simp add: buf' hd' back_index_new_head)
  next
    case (Suc j)
    with that c2 have j: "Suc j < MAX_LOG_ENTRIES" "j < buffer_count s" by auto
    have "back_index (buffer_head ?s') i = back_index (buffer_head s) j"
      using hd j Suc by (simp add: hd' back_index_shift)
    moreover have "back_index (buffer_head s) j \<noteq> buffer_head s"
      using hd j by (simp add: back_index_other)
    ultimately show ?thesis using ent [OF j(2)] Suc by (simp add: buf')
  qed
  show ?thesis
    unfolding ring_holds_def using c1 c3 hd len
    by (simp add: buf' hd' MAX_LOG_ENTRIES_def)
qed

lemma ring_holds_log_null: "ring_holds s h \<Longrightarrow> ring_holds (snd (attack_logger_log None now s)) h"
  by (simp add: attack_logger_log_def)

lemma ring_holds_init_fail:
  "ring_holds s h \<Longrightarrow> ring_holds (snd (attack_logger_init False loaded now s)) h"
  by (simp add: attack_logger_init_def)

lemma ring_holds_init_empty:
  "ring_holds s h \<Longrightarrow> ring_holds (snd (attack_logger_init True [] now s)) h"
  by (simp add: attack_logger_init_def ring_holds_def flash_storage_load_logs_def)

lemma ring_holds_init_load:
  assumes "ring_holds s h" "loaded \<noteq> []" "length loaded \<le> MAX_LOG_ENTRIES"
  shows "ring_holds (snd (attack_logger_init True loaded now s)) loaded"
proof -
  let ?s' = "snd (attack_logger_init True loaded now s)"
  from assms have len: "length (log_buffer s) = MAX_LOG_ENTRIES"
    by (simp add: ring_holds_def)
  have buf': "log_buffer ?s' = loaded @ drop (length loaded) (log_buffer s)"
    using assms len by (simp add: attack_logger_init_def Let_def flash_storage_load_logs_def)
  have hd': "buffer_head ?s' = length loaded mod MAX_LOG_ENTRIES"
    and cnt': "buffer_count ?s' = length loaded"
    using assms by (simp_all add: attack_logger_init_def Let_def)
  have idx: "back_index (length loaded mod MAX_LOG_ENTRIES) i = length loaded - Suc i"
    if "i < length loaded" for i
    using that assms(3) unfolding back_index_def by (rule ring_mod_loaded [rotated])
  have "log_buffer ?s' ! back_index (buffer_head ?s') i = rev loaded ! i"
    if "i < length loaded" for i
    using that by (simp add: buf' hd' idx nth_append rev_nth)
  then show ?thesis
    unfolding ring_holds_def using assms(3) len
    by (simp add: buf' hd' cnt' MAX_LOG_ENTRIES_def)
qed

lemma ring_holds_step:
  "ring_holds s h \<Longrightarrow> load_bounded op \<Longrightarrow> ring_holds (logger_step op s) (history_step op h)"
proof (cases op)
  case (Init flash_ok loaded now)
  assume "ring_holds s h" "load_bounded op"
  with Init show ?thesis
    by (cases flash_ok; cases "loaded = []")
       (simp_all add: ring_holds_init_fail ring_holds_init_empty ring_holds_init_load)
next
  case (Log e now)
  assume "ring_holds s h" "load_bounded op"
  with Log show ?thesis
    by (cases e) (simp_all add: ring_holds_log ring_holds_log_null)
next
  case Clear
  assume "ring_holds s h"
  with Clear show ?thesis by (simp add: ring_holds_clear)
qed

lemma ring_holds_run:
  "ring_holds s h \<Longrightarrow> list_all load_bounded ops \<Longrightarrow>
   ring_holds (logger_run ops s) (history ops h)"
  by (induction ops arbitrary: s h) (simp_all add: ring_holds_step)

lemma get_recent_of_ring:
  assumes "ring_holds s h"
  shows "attack_logger_get_recent s True n True =
           Inr (take (min n (buffer_count s)) (rev h), min n (buffer_count s))"
proof -
  let ?c = "min n (buffer_count s)"
  from assms have hd: "buffer_head s < MAX_LOG_ENTRIES"
    and cnt: "buffer_count s = min MAX_LOG_ENTRIES (length h)"
    and ent: "\<And>i. i < buffer_count s \<Longrightarrow> log_buffer s ! back_index (buffer_head s) i = rev h ! i"
    by (simp_all add: ring_holds_def)
  have cle: "?c \<le> MAX_LOG_ENTRIES" "?c \<le> length h" "?c \<le> buffer_count s"
    using cnt by auto
  have "copy_recent (log_buffer s) (buffer_head s) ?c =
          map (\<lambda>i. log_buffer s ! back_index (buffer_head s) i) [0..<?c]"
    using hd cle by (simp add: copy_recent_map)
  also have "\<dots> = map (\<lambda>i. rev h ! i) [0..<?c]"
    using ent cle by simp
  also have "\<dots> = take ?c (rev h)"
    using cle by (intro nth_equalityI) simp_all
  finally have cp: "copy_recent (log_buffer s) (buffer_head s) ?c = take ?c (rev h)" .
  have sel: "(if buffer_count s < n then buffer_count s else n) = ?c"
    by (simp add: min_def)
  show ?thesis
    unfolding attack_logger_get_recent_def sel Let_def using cp by auto
qed

text \<open>
  C2. In every logger state reached from start-up by init, log and clear operations
  (each init's flash delivering at most \<^verbatim>\<open>MAX_LOG_ENTRIES\<close> records), for every \<open>n\<close>,
  \<^verbatim>\<open>attack_logger_get_recent\<close> returns exactly \<open>min n buffer_count\<close> records, newest
  first: \<^verbatim>\<open>logs[i]\<close> is the \<open>i\<close>-th most recent record of the history. The count is the
  history's length capped at \<^verbatim>\<open>MAX_LOG_ENTRIES\<close>, and asking for
  \<^verbatim>\<open>MAX_LOG_ENTRIES + k\<close> records returns exactly \<^verbatim>\<open>buffer_count\<close> of them.
\<close>

theorem get_recent_newest_first:
  "list_all load_bounded ops \<Longrightarrow> s = logger_run ops (logger_boot fl) \<Longrightarrow>
   attack_logger_get_recent s True n True
     = Inr (take (min n (buffer_count s)) (rev (history ops [])), min n (buffer_count s))
   \<and> length (take (min n (buffer_count s)) (rev (history ops []))) = min n (buffer_count s)
   \<and> buffer_count s = min MAX_LOG_ENTRIES (length (history ops []))
   \<and> attack_logger_get_recent s True (MAX_LOG_ENTRIES + k) True
       = Inr (take (buffer_count s) (rev (history ops [])), buffer_count s)"
proof -
  assume "list_all load_bounded ops" and s: "s = logger_run ops (logger_boot fl)"
  then have r: "ring_holds s (history ops [])"
    by (simp add: ring_holds_run ring_holds_boot)
  then have cnt: "buffer_count s = min MAX_LOG_ENTRIES (length (history ops []))"
    by (simp add: ring_holds_def)
  have "min (MAX_LOG_ENTRIES + k) (buffer_count s) = buffer_count s"
    using cnt by simp
  then show ?thesis
    using get_recent_of_ring [OF r, of n] get_recent_of_ring [OF r, of "MAX_LOG_ENTRIES + k"] cnt
    by simp
qed

theorem get_recent_newest_first_witness:
  "list_all load_bounded wrapped_run
   \<and> attack_logger_get_recent (logger_run wrapped_run (logger_boot [])) True 3 True
       = Inr ([rec_b, rec_a, rec_a], 3)
   \<and> buffer_count (logger_run wrapped_run (logger_boot [])) = 100
   \<and> length (history wrapped_run []) = 101"
proof -
  have a: "list_all load_bounded wrapped_run"
    by code_simp
  have b: "take (min 3 (buffer_count (logger_run wrapped_run (logger_boot []))))
             (rev (history wrapped_run [])) = [rec_b, rec_a, rec_a]"
    by code_simp
  have c: "buffer_count (logger_run wrapped_run (logger_boot [])) = 100"
    by code_simp
  have d: "length (history wrapped_run []) = 101"
    by code_simp
  show ?thesis
    using get_recent_newest_first [OF a refl, of "[]" 3 0] a b c d by simp
qed

lemma get_recent_short_run:
  "attack_logger_get_recent (logger_run short_run (logger_boot [])) True 5 True
     = Inr ([rec_b, rec_a], 2)"
  by code_simp

lemma get_recent_null_arguments:
  "attack_logger_get_recent s False n num_ok = Inl ESP_ERR_INVALID_ARG"
  "attack_logger_get_recent s logs_ok n False = Inl ESP_ERR_INVALID_ARG"
  by (simp_all add: attack_logger_get_recent_def)

subsection \<open>Clearing\<close>

text \<open>
  C9. \<^verbatim>\<open>attack_logger_clear\<close> is idempotent: run twice in succession, from any logger
  state, it returns the same status and leaves exactly the state one run leaves (ring
  contents, head, tail, count, statistics and flash mirror).
\<close>

theorem attack_logger_clear_idempotent:
  "attack_logger_clear (snd (attack_logger_clear s)) = attack_logger_clear s"
  by (simp add: attack_logger_clear_def flash_storage_clear_all_def)

section \<open>Properties of the HTTP service\<close>

subsection \<open>Replies of the HTTP handler\<close>

lemma parse_fails_iff: "(parse_http_request data = None) = request_too_short data"
  by (simp add: parse_http_request_def request_too_short_def Let_def split: option.splits)

lemma length_FAKE_LOGIN_HTML: "length FAKE_LOGIN_HTML = 647"
  by (simp add: FAKE_LOGIN_HTML_def)

lemma digit_chars:
  "char_of (48 :: nat) = CHR ''0''" "char_of (49 :: nat) = CHR ''1''" "char_of (50 :: nat) = CHR ''2''"
  "char_of (51 :: nat) = CHR ''3''" "char_of (52 :: nat) = CHR ''4''" "char_of (53 :: nat) = CHR ''5''"
  "char_of (54 :: nat) = CHR ''6''" "char_of (55 :: nat) = CHR ''7''" "char_of (56 :: nat) = CHR ''8''"
  "char_of (57 :: nat) = CHR ''9''"
  by code_simp+

lemma dec_digits_values: "dec_digits 403 = ''403''" "dec_digits 400 = ''400''"
  "dec_digits 647 = ''647''" "dec_digits 65 = ''65''"
  by (simp_all add: dec_digits.simps digit_chars)

lemma send_fake_response_text:
  "send_fake_response =
     ''HTTP/1.1 403 Forbidden'' @ crlf
     @ ''Content-Type: text/html'' @ crlf
     @ ''Content-Length: 647'' @ crlf
     @ ''Connection: close'' @ crlf
     @ ''Server: Apache/2.4.41 (Ubuntu)'' @ crlf
     @ crlf
     @ FAKE_LOGIN_HTML"
  by (simp add: send_fake_response_def snprintf_stored_def http_response_text_def
      length_FAKE_LOGIN_HTML dec_digits_values crlf_def)

lemma send_error_response_text:
  "send_error_response 400 ''Bad Request'' =
     ''HTTP/1.1 400 Bad Request'' @ crlf
     @ ''Content-Type: text/html'' @ crlf
     @ ''Content-Length: 65'' @ crlf
     @ ''Connection: close'' @ crlf
     @ ''Server: Apache/2.4.41 (Ubuntu)'' @ crlf
     @ crlf
     @ error_body"
proof -
  have "length error_body = 65"
    by (simp add: error_body_def)
  then show ?thesis
    by (simp add: send_error_response_def snprintf_stored_def http_response_text_def
        dec_digits_values crlf_def)
qed

lemma sent_of_request:
  "sent (http_service_handle_request P hash now data client_ip port)
     = [if request_too_short data then send_error_response 400 ''Bad Request''
        else send_fake_response]"
  using parse_fails_iff [of data]
  by (cases "parse_http_request data") (auto simp: http_service_handle_request_def)

text \<open>
  C4 (as amended). \<^verbatim>\<open>http_service_handle_request\<close> replies with status 400 exactly
  when \<^verbatim>\<open>parse_http_request\<close> fails, which is when the buffer is NULL or holds a string
  of fewer than 10 characters; the request-line grammar is not checked. Every other
  request gets \<^verbatim>\<open>403 Forbidden\<close> with the canned admin-panel page and the headers
  \<^verbatim>\<open>Content-Type: text/html\<close>, \<^verbatim>\<open>Connection: close\<close> and
  \<^verbatim>\<open>Server: Apache/2.4.41 (Ubuntu)\<close>, untruncated. The reply depends on nothing else,
  so the suspicious-path check never changes it.
\<close>

theorem http_reply:
  "sent (http_service_handle_request P hash now data client_ip port)
     = [if request_too_short data then send_error_response 400 ''Bad Request''
        else send_fake_response]
   \<and> (parse_http_request data = None) = request_too_short data
   \<and> send_error_response 400 ''Bad Request'' =
       ''HTTP/1.1 400 Bad Request'' @ crlf
       @ ''Content-Type: text/html'' @ crlf
       @ ''Content-Length: 65'' @ crlf
       @ ''Connection: close'' @ crlf
       @ ''Server: Apache/2.4.41 (Ubuntu)'' @ crlf
       @ crlf
       @ error_body
   \<and> send_fake_response =
       ''HTTP/1.1 403 Forbidden'' @ crlf
       @ ''Content-Type: text/html'' @ crlf
       @ ''Content-Length: 647'' @ crlf
       @ ''Connection: close'' @ crlf
       @ ''Server: Apache/2.4.41 (Ubuntu)'' @ crlf
       @ crlf
       @ FAKE_LOGIN_HTML"
  using sent_of_request parse_fails_iff send_fake_response_text send_error_response_text
  by simp

lemma scenario_2_parsed:
  "parse_http_request (Some scenario_2) = Some (''GET'', ''/../../etc/passwd'', [], [])"
  by code_simp

theorem http_reply_witness:
  "suspicious_path (fst (snd (the (parse_http_request (Some scenario_2)))))
   \<and> sent (http_service_handle_request esp32 no_hash 0 (Some scenario_2) ''10.0.0.1'' 80)
       = [send_fake_response]
   \<and> sent (http_service_handle_request esp32 no_hash 0 (Some ''GET /'') ''10.0.0.1'' 80)
       = [send_error_response 400 ''Bad Request'']"
proof -
  have a: "suspicious_path ''/../../etc/passwd''"
    by code_simp
  have b: "\<not> request_too_short (Some scenario_2)"
    using parse_fails_iff [of "Some scenario_2"] by (simp add: scenario_2_parsed)
  have c: "request_too_short (Some ''GET /'')"
    by code_simp
  show ?thesis
    using http_reply [of esp32 no_hash 0 "Some scenario_2" "''10.0.0.1''" 80]
      http_reply [of esp32 no_hash 0 "Some ''GET /''" "''10.0.0.1''" 80] a b c
    by (simp add: scenario_2_parsed)
qed

text \<open>
  The claim as stated fails in both directions: twelve letters without a space do not
  match the request-line grammar and get the 403 reply; a seven-character request that
  matches the grammar gets the 400 reply.
\<close>

theorem http_reply_grammar_counterexample:
  "\<not> spec_request_line garbage_request
   \<and> sent (http_service_handle_request esp32 no_hash 0 (Some garbage_request) ''10.0.0.1'' 80)
       = [send_fake_response]
   \<and> take 12 send_fake_response = ''HTTP/1.1 403''
   \<and> spec_request_line tiny_request
   \<and> sent (http_service_handle_request esp32 no_hash 0 (Some tiny_request) ''10.0.0.1'' 80)
       = [send_error_response 400 ''Bad Request'']
   \<and> take 12 (send_error_response 400 ''Bad Request'') = ''HTTP/1.1 400''"
proof -
  have a: "\<not> spec_request_line garbage_request"
    by code_simp
  have b: "\<not> request_too_short (Some garbage_request)"
    by code_simp
  have c: "spec_request_line tiny_request"
    by code_simp
  have d: "request_too_short (Some tiny_request)"
    by code_simp
  have e: "take 12 send_fake_response = ''HTTP/1.1 403''"
    by (simp add: send_fake_response_text)
  have f: "take 12 (send_error_response 400 ''Bad Request'') = ''HTTP/1.1 400''"
    by (simp add: send_error_response_text)
  show ?thesis
    using a b c d e f by (simp add: sent_of_request)
qed

subsection \<open>Scenario 1\<close>

lemma scenario_1_cstr: "cstr scenario_1 = scenario_1"
  by code_simp

lemma scenario_1_parsed:
  "parse_http_request (Some scenario_1) = Some (''POST'', ''/login'', ''curl/7.81'', [])"
proof -
  have a: "sscanf_method_path scenario_1 = (''POST'', ''/login'')"
    by code_simp
  have b: "parse_headers scenario_1 [] [] = (''curl/7.81'', [])"
    by code_simp
  have c: "\<not> length scenario_1 < 10"
    by (simp add: scenario_1_def)
  show ?thesis
    using c by (simp add: parse_http_request_def scenario_1_cstr a b)
qed

lemma platform_sizes:
  "ptr_size esp32 = 4" "source_ip_size esp32 = 16" "username_size esp32 = 64"
  "password_size esp32 = 64" "user_agent_size esp32 = 256" "metadata_size esp32 = 256"
  "ptr_size lp64 = 8" "source_ip_size lp64 = 16" "username_size lp64 = 64"
  "password_size lp64 = 64" "user_agent_size lp64 = 256" "metadata_size lp64 = 256"
  by (simp_all add: esp32_def lp64_def)

lemma scenario_1_extract_esp32:
  "extract_credentials_from_post esp32 scenario_1 (''N/A'', ''N/A'') = (''N/A'', ''N/A'')"
  by code_simp

text \<open>
  C1. On the ESP32 the request of scenario 1 gets the 403 reply and one record with
  service HTTP, user agent \<open>curl/7.81\<close> and metadata \<open>Method: POST, Path: /login\<close>,
  but the username and the password of the record are the sentinel \<open>N/A\<close>, not
  \<open>admin\<close> and \<open>1234\<close>: \<^verbatim>\<open>sizeof(username) - 1\<close> is 3 there, and a value of 3
  characters or more is not copied.
\<close>

theorem scenario_1_on_esp32:
  "sent (http_service_handle_request esp32 hash now (Some scenario_1) client_ip port)
     = [send_fake_response]
   \<and> take 24 send_fake_response = ''HTTP/1.1 403 Forbidden'' @ crlf
   \<and> map service (logged (http_service_handle_request esp32 hash now (Some scenario_1) client_ip port))
       = [''HTTP'']
   \<and> map username (logged (http_service_handle_request esp32 hash now (Some scenario_1) client_ip port))
       = [''N/A'']
   \<and> map password (logged (http_service_handle_request esp32 hash now (Some scenario_1) client_ip port))
       = [''N/A'']
   \<and> map user_agent (logged (http_service_handle_request esp32 hash now (Some scenario_1) client_ip port))
       = [''curl/7.81'']
   \<and> map metadata (logged (http_service_handle_request esp32 hash now (Some scenario_1) client_ip port))
       = [''Method: POST, Path: /login'']"
proof -
  have a: "take 24 send_fake_response = ''HTTP/1.1 403 Forbidden'' @ crlf"
    by (simp add: send_fake_response_text crlf_def)
  have b: "logged (http_service_handle_request esp32 hash now (Some scenario_1) client_ip port)
       = [log_http_attack esp32 hash now client_ip port ''POST'' ''/login'' ''curl/7.81'' [] scenario_1]"
    by (simp add: http_service_handle_request_def scenario_1_parsed)
  have c: "sent (http_service_handle_request esp32 hash now (Some scenario_1) client_ip port)
       = [send_fake_response]"
    by (simp add: http_service_handle_request_def scenario_1_parsed)
  show ?thesis
    unfolding b c
    by (simp add: a log_http_attack_def platform_sizes strncpy_field_def snprintf_stored_def
        scenario_1_cstr scenario_1_extract_esp32)
qed

text \<open>The guard in general: a value as long as the pointer size less one is not copied.\<close>

lemma extract_field_length_bound:
  "strstr data pattern = Some found \<Longrightarrow>
   ptr_size P - 1 \<le> field_length (drop (length pattern) found) \<Longrightarrow>
   extract_field P data pattern cur = cur"
  by (simp add: extract_field_def Let_def)

text \<open>
  With 8-byte pointers the bound is 7: scenario 1 then yields its credentials, and
  longer values are dropped all the same.
\<close>

lemma scenario_1_extract_lp64:
  "extract_credentials_from_post lp64 scenario_1 (''N/A'', ''N/A'') = (''admin'', ''1234'')"
  by code_simp

lemma scenario_1_with_8_byte_pointers:
  "map username (logged (http_service_handle_request lp64 hash now (Some scenario_1) client_ip port))
     = [''admin'']
   \<and> map password (logged (http_service_handle_request lp64 hash now (Some scenario_1) client_ip port))
       = [''1234'']"
  by (simp add: http_service_handle_request_def scenario_1_parsed log_http_attack_def
      platform_sizes strncpy_field_def scenario_1_cstr scenario_1_extract_lp64)

lemma long_credentials_parsed:
  "parse_http_request (Some long_credentials) = Some (''POST'', ''/login'', [], [])"
  "cstr long_credentials = long_credentials"
  by code_simp+

lemma long_credentials_extract:
  "extract_credentials_from_post lp64 long_credentials (''N/A'', ''N/A'') = (''N/A'', ''N/A'')"
  by code_simp

lemma long_credentials_dropped:
  "map username (logged (http_service_handle_request lp64 hash now (Some long_credentials) client_ip port))
     = [''N/A'']
   \<and> map password (logged (http_service_handle_request lp64 hash now (Some long_credentials) client_ip port))
       = [''N/A'']"
  by (simp add: http_service_handle_request_def long_credentials_parsed log_http_attack_def
      platform_sizes strncpy_field_def long_credentials_extract)

subsection \<open>The header loop\<close>

lemma strstr_crlf_skip:
  "CR \<notin> set pre \<Longrightarrow> strstr (pre @ CR # LF # rest) crlf = Some (CR # LF # rest)"
  by (induction pre) (auto simp: crlf_def)

lemma tolower_CR: "tolower CR = CR"
  by (simp add: tolower_def CR_def)

lemma dropWhile_stops: "\<not> P c \<Longrightarrow> dropWhile P (a @ c # x) = dropWhile P a @ c # x"
  by (induction a) auto

lemma strncasecmp_eq_line:
  assumes "CR \<notin> set l" and "length name = n" and "CR \<notin> set (map tolower name)"
  shows "strncasecmp_eq (l @ CR # x) name n = strncasecmp_eq l name n"
proof (cases "n \<le> length l")
  case True
  then show ?thesis
    by (simp add: strncasecmp_eq_def)
next
  case False
  then have short: "length l < n"
    by simp
  have r: "\<not> strncasecmp_eq l name n"
  proof
    assume "strncasecmp_eq l name n"
    then have "length (map tolower (take n l)) = length (map tolower (take n name))"
      by (simp add: strncasecmp_eq_def)
    with short assms(2) show False
      by simp
  qed
  have l: "\<not> strncasecmp_eq (l @ CR # x) name n"
  proof
    assume "strncasecmp_eq (l @ CR # x) name n"
    then have "map tolower (take n (l @ CR # x)) = map tolower name"
      using assms(2) by (simp add: strncasecmp_eq_def)
    moreover from short obtain k where "n - length l = Suc k"
      by (cases "n - length l") auto
    ultimately have "map tolower l @ CR # map tolower (take k x) = map tolower name"
      using short by (simp add: tolower_CR)
    then have "CR \<in> set (map tolower name)"
      by (metis in_set_conv_decomp)
    with assms(3) show False
      by simp
  qed
  from r l show ?thesis
    by simp
qed

lemma header_names_lower:
  "CR \<notin> set (map tolower ''User-Agent:'')" "CR \<notin> set (map tolower ''Authorization:'')"
  by code_simp+

lemma header_value_crlf:
  "CR \<notin> set v \<Longrightarrow> header_value (v @ CR # LF # rest) old = kept_value v old"
  by (simp add: header_value_def kept_value_def strstr_crlf_skip)

lemma parse_headers_line:
  assumes "CR \<notin> set pre"
  shows "parse_headers (pre @ CR # LF # rest) ua au =
     (if strncasecmp_eq rest ''User-Agent:'' 11 then
        parse_headers (dropWhile (\<lambda>c. c = CHR '' '') (drop 11 rest))
          (header_value (dropWhile (\<lambda>c. c = CHR '' '') (drop 11 rest)) ua) au
      else if strncasecmp_eq rest ''Authorization:'' 14 then
        parse_headers (dropWhile (\<lambda>c. c = CHR '' '') (drop 14 rest))
          ua (header_value (dropWhile (\<lambda>c. c = CHR '' '') (drop 14 rest)) au)
      else if take 2 rest = crlf then (ua, au)
      else parse_headers rest ua au)"
  by (subst parse_headers.simps) (simp add: strstr_crlf_skip [OF assms])

lemma not_header_at_crlf:
  "\<not> strncasecmp_eq (CR # x) ''User-Agent:'' 11" "\<not> strncasecmp_eq (CR # x) ''Authorization:'' 14"
  using strncasecmp_eq_line [of "[]" "''User-Agent:''" 11 x] header_names_lower(1)
    strncasecmp_eq_line [of "[]" "''Authorization:''" 14 x] header_names_lower(2)
  by (simp_all add: strncasecmp_eq_def)

lemma header_text_line:
  assumes "CR \<notin> set l" and "n \<le> length l"
  shows "dropWhile (\<lambda>c. c = CHR '' '') (drop n (l @ CR # x)) = header_text n l @ CR # x"
    and "CR \<notin> set (header_text n l)"
proof -
  have sp: "\<not> (CR = CHR '' '')"
    by (simp add: CR_def)
  show "dropWhile (\<lambda>c. c = CHR '' '') (drop n (l @ CR # x)) = header_text n l @ CR # x"
    using assms(2) dropWhile_stops [of "\<lambda>c. c = CHR '' ''" CR "drop n l" x] sp
    by (simp add: header_text_def)
  have "set (header_text n l) \<subseteq> set l"
    unfolding header_text_def
    by (meson set_drop_subset set_dropWhileD subsetI subsetD)
  with assms(1) show "CR \<notin> set (header_text n l)"
    by auto
qed

lemma strncasecmp_eq_length: "strncasecmp_eq l name n \<Longrightarrow> length name = n \<Longrightarrow> n \<le> length l"
proof -
  assume "strncasecmp_eq l name n" and n: "length name = n"
  then have "length (map tolower (take n l)) = length (map tolower (take n name))"
    by (simp add: strncasecmp_eq_def)
  with n show ?thesis
    by simp
qed

lemma header_block_simps:
  "header_block [] = []" "header_block (l # ls) = l @ CR # LF # header_block ls"
  by (simp_all add: header_block_def crlf_def)

lemma parse_headers_lines:
  "CR \<notin> set pre \<Longrightarrow> list_all proper_line hs \<Longrightarrow>
   parse_headers (pre @ CR # LF # header_block hs @ CR # LF # body) ua au
     = foldl scan_header (ua, au) hs"
proof (induction hs arbitrary: pre ua au)
  case Nil
  then show ?case
    using parse_headers_line [of pre "CR # LF # body" ua au]
    by (simp add: header_block_simps crlf_def not_header_at_crlf)
next
  case (Cons l ls)
  define R where "R = header_block ls @ CR # LF # body"
  define L where "L = l @ CR # LF # R"
  from Cons.prems have l: "l \<noteq> []" "CR \<notin> set l"
    by (simp_all add: proper_line_def)
  from Cons.prems have ls: "list_all proper_line ls"
    by simp
  have blk: "pre @ CR # LF # header_block (l # ls) @ CR # LF # body = pre @ CR # LF # L"
    by (simp add: header_block_simps L_def R_def)
  have ua_eq: "strncasecmp_eq L ''User-Agent:'' 11 = strncasecmp_eq l ''User-Agent:'' 11"
    unfolding L_def using l(2) header_names_lower(1) by (intro strncasecmp_eq_line) simp_all
  have au_eq: "strncasecmp_eq L ''Authorization:'' 14 = strncasecmp_eq l ''Authorization:'' 14"
    unfolding L_def using l(2) header_names_lower(2) by (intro strncasecmp_eq_line) simp_all
  have not_blank: "take 2 L \<noteq> crlf"
    unfolding L_def using l by (cases l) (auto simp: crlf_def)
  have step: "parse_headers (pre @ CR # LF # L) ua au =
     (if strncasecmp_eq l ''User-Agent:'' 11 then
        parse_headers (dropWhile (\<lambda>c. c = CHR '' '') (drop 11 L))
          (header_value (dropWhile (\<lambda>c. c = CHR '' '') (drop 11 L)) ua) au
      else if strncasecmp_eq l ''Authorization:'' 14 then
        parse_headers (dropWhile (\<lambda>c. c = CHR '' '') (drop 14 L))
          ua (header_value (dropWhile (\<lambda>c. c = CHR '' '') (drop 14 L)) au)
      else parse_headers L ua au)"
    using parse_headers_line [OF Cons.prems(1), of L ua au] not_blank
    by (simp add: ua_eq au_eq)
  show ?case
  proof (cases "strncasecmp_eq l ''User-Agent:'' 11")
    case True
    then have n: "11 \<le> length l"
      using strncasecmp_eq_length [of l "''User-Agent:''" 11] by simp
    have v: "dropWhile (\<lambda>c. c = CHR '' '') (drop 11 L) = header_text 11 l @ CR # LF # R"
      unfolding L_def using l(2) n by (rule header_text_line(1))
    have "parse_headers (header_text 11 l @ CR # LF # header_block ls @ CR # LF # body)
            (kept_value (header_text 11 l) ua) au
          = foldl scan_header (kept_value (header_text 11 l) ua, au) ls"
      using header_text_line(2) [OF l(2) n] ls by (rule Cons.IH)
    moreover have "scan_header (ua, au) l = (kept_value (header_text 11 l) ua, au)"
      using True by (simp add: scan_header_def)
    ultimately show ?thesis
      using True header_text_line(2) [OF l(2) n]
      by (simp add: blk step v header_value_crlf R_def)
  next
    case False
    note not_ua = False
    show ?thesis
    proof (cases "strncasecmp_eq l ''Authorization:'' 14")
      case True
      then have n: "14 \<le> length l"
        using strncasecmp_eq_length [of l "''Authorization:''" 14] by simp
      have v: "dropWhile (\<lambda>c. c = CHR '' '') (drop 14 L) = header_text 14 l @ CR # LF # R"
        unfolding L_def using l(2) n by (rule header_text_line(1))
      have "parse_headers (header_text 14 l @ CR # LF # header_block ls @ CR # LF # body)
              ua (kept_value (header_text 14 l) au)
            = foldl scan_header (ua, kept_value (header_text 14 l) au) ls"
        using header_text_line(2) [OF l(2) n] ls by (rule Cons.IH)
      moreover have "scan_header (ua, au) l = (ua, kept_value (header_text 14 l) au)"
        using True not_ua by (simp add: scan_header_def)
      ultimately show ?thesis
        using True not_ua header_text_line(2) [OF l(2) n]
        by (simp add: blk step v header_value_crlf R_def)
    next
      case False
      have "parse_headers L ua au = foldl scan_header (ua, au) ls"
        unfolding L_def R_def using l(2) ls by (rule Cons.IH)
      moreover have "scan_header (ua, au) l = (ua, au)"
        using False not_ua by (simp add: scan_header_def)
      ultimately show ?thesis
        using False not_ua by (simp add: blk step)
    qed
  qed
qed

lemma parse_headers_block:
  "CR \<notin> set pre \<Longrightarrow> list_all proper_line hs \<Longrightarrow>
   parse_headers (pre @ crlf @ header_block hs @ crlf @ body) ua au = foldl scan_header (ua, au) hs"
  using parse_headers_lines [of pre hs body ua au] by (simp add: crlf_def)

lemma cstr_append: "NUL \<notin> set xs \<Longrightarrow> cstr (xs @ ys) = xs @ cstr ys"
  by (induction xs) (auto simp: cstr_def)

lemma parse_request_headers:
  assumes "CR \<notin> set reqline" and "list_all proper_line hs"
    and "NUL \<notin> set (reqline @ crlf @ header_block hs @ crlf)"
    and "10 \<le> length (reqline @ crlf @ header_block hs @ crlf)"
  shows "map_option (\<lambda>r. (fst (snd (snd r)), snd (snd (snd r))))
           (parse_http_request (Some (reqline @ crlf @ header_block hs @ crlf @ body)))
         = Some (header_fields hs)"
proof -
  let ?hd = "reqline @ crlf @ header_block hs @ crlf"
  have c: "cstr (?hd @ body) = reqline @ crlf @ header_block hs @ crlf @ cstr body"
    using cstr_append [OF assms(3), of body] by simp
  have "parse_headers (reqline @ crlf @ header_block hs @ crlf @ cstr body) [] [] = header_fields hs"
    unfolding header_fields_def using assms(1,2) by (rule parse_headers_block)
  moreover have "\<not> length (reqline @ crlf @ header_block hs @ crlf @ cstr body) < 10"
    using assms(4) by simp
  ultimately show ?thesis
    using c by (simp add: parse_http_request_def Let_def)
qed

lemma not_agent_keeps_fst:
  "list_all (\<lambda>l. \<not> strncasecmp_eq l ''User-Agent:'' 11) hs \<Longrightarrow>
   fst (foldl scan_header held hs) = fst held"
  by (induction hs arbitrary: held) (simp_all add: scan_header_def)

lemma not_authorization_keeps_snd:
  "list_all (\<lambda>l. \<not> strncasecmp_eq l ''Authorization:'' 14) hs \<Longrightarrow>
   snd (foldl scan_header held hs) = snd held"
  by (induction hs arbitrary: held) (simp_all add: scan_header_def)

lemma header_fields_one_agent:
  assumes "list_all (\<lambda>l. \<not> strncasecmp_eq l ''User-Agent:'' 11) (hs1 @ hs2)"
    and "strncasecmp_eq l ''User-Agent:'' 11"
  shows "fst (header_fields (hs1 @ l # hs2))
           = (if length (header_text 11 l) < 255 then header_text 11 l else [])"
proof -
  from assms(1) have a: "list_all (\<lambda>l. \<not> strncasecmp_eq l ''User-Agent:'' 11) hs1"
    and b: "list_all (\<lambda>l. \<not> strncasecmp_eq l ''User-Agent:'' 11) hs2"
    by simp_all
  have "fst (header_fields (hs1 @ l # hs2))
          = fst (scan_header (foldl scan_header ([], []) hs1) l)"
    using not_agent_keeps_fst [OF b] by (simp add: header_fields_def)
  also have "\<dots> = kept_value (header_text 11 l) (fst (foldl scan_header ([], []) hs1))"
    using assms(2) by (simp add: scan_header_def)
  also have "\<dots> = kept_value (header_text 11 l) []"
    using not_agent_keeps_fst [OF a, of "([], [])"] by simp
  finally show ?thesis
    by (simp add: kept_value_def)
qed

lemma header_fields_one_authorization:
  assumes "list_all (\<lambda>l. \<not> strncasecmp_eq l ''Authorization:'' 14) (hs1 @ hs2)"
    and "strncasecmp_eq l ''Authorization:'' 14" and "\<not> strncasecmp_eq l ''User-Agent:'' 11"
  shows "snd (header_fields (hs1 @ l # hs2))
           = (if length (header_text 14 l) < 255 then header_text 14 l else [])"
proof -
  from assms(1) have a: "list_all (\<lambda>l. \<not> strncasecmp_eq l ''Authorization:'' 14) hs1"
    and b: "list_all (\<lambda>l. \<not> strncasecmp_eq l ''Authorization:'' 14) hs2"
    by simp_all
  have "snd (header_fields (hs1 @ l # hs2))
          = snd (scan_header (foldl scan_header ([], []) hs1) l)"
    using not_authorization_keeps_snd [OF b] by (simp add: header_fields_def)
  also have "\<dots> = kept_value (header_text 14 l) (snd (foldl scan_header ([], []) hs1))"
    using assms(2,3) by (simp add: scan_header_def)
  also have "\<dots> = kept_value (header_text 14 l) []"
    using not_authorization_keeps_snd [OF a, of "([], [])"] by simp
  finally show ?thesis
    by (simp add: kept_value_def)
qed

lemma authorization_not_agent:
  assumes "strncasecmp_eq l ''Authorization:'' 14"
  shows "\<not> strncasecmp_eq l ''User-Agent:'' 11"
proof
  assume ua: "strncasecmp_eq l ''User-Agent:'' 11"
  have d: "tolower (CHR ''A'') \<noteq> tolower (CHR ''U'')"
    by code_simp
  from assms have "l \<noteq> []"
    by (auto simp: strncasecmp_eq_def)
  then obtain c cs where l: "l = c # cs"
    by (cases l) auto
  from assms have "tolower c = tolower (CHR ''A'')"
    by (simp add: strncasecmp_eq_def l)
  moreover from ua have "tolower c = tolower (CHR ''U'')"
    by (simp add: strncasecmp_eq_def l)
  ultimately show False
    using d by simp
qed

text \<open>
  C5 (as amended). For every HTTP request whose header block is a sequence of
  non-empty lines without CR, each ended by CRLF, closed by a blank line, with no NUL
  before the body, \<^verbatim>\<open>parse_http_request\<close> extracts as User-Agent (Authorization) the
  value of the last header of that name whose value has fewer than 255 characters
  (name matched on its first 11 (14) characters up to case, leading spaces trimmed)
  and the empty string when there is none. With one header of the name, the extracted
  value is the header's value when that has fewer than 255 characters and the empty
  string otherwise: a value of 255 characters or more is not truncated but skipped.
\<close>

theorem header_values_extracted:
  "CR \<notin> set reqline \<Longrightarrow> list_all proper_line hs \<Longrightarrow>
   NUL \<notin> set (reqline @ crlf @ header_block hs @ crlf) \<Longrightarrow>
   10 \<le> length (reqline @ crlf @ header_block hs @ crlf) \<Longrightarrow>
   map_option (\<lambda>r. (fst (snd (snd r)), snd (snd (snd r))))
     (parse_http_request (Some (reqline @ crlf @ header_block hs @ crlf @ body)))
     = Some (header_fields hs)
   \<and> (\<forall>hs1 l hs2.
        hs = hs1 @ l # hs2 \<and> strncasecmp_eq l ''User-Agent:'' 11
        \<and> list_all (\<lambda>l. \<not> strncasecmp_eq l ''User-Agent:'' 11) (hs1 @ hs2) \<longrightarrow>
        fst (header_fields hs)
          = (if length (header_text 11 l) < 255 then header_text 11 l else []))
   \<and> (\<forall>hs1 l hs2.
        hs = hs1 @ l # hs2 \<and> strncasecmp_eq l ''Authorization:'' 14
        \<and> list_all (\<lambda>l. \<not> strncasecmp_eq l ''Authorization:'' 14) (hs1 @ hs2) \<longrightarrow>
        snd (header_fields hs)
          = (if length (header_text 14 l) < 255 then header_text 14 l else []))"
  using parse_request_headers [of reqline hs body]
    header_fields_one_agent header_fields_one_authorization authorization_not_agent
  by blast

theorem header_values_extracted_witness:
  "CR \<notin> set ''GET /admin HTTP/1.1'' \<and> list_all proper_line basic_auth_headers
   \<and> NUL \<notin> set (''GET /admin HTTP/1.1'' @ crlf @ header_block basic_auth_headers @ crlf)
   \<and> 10 \<le> length (''GET /admin HTTP/1.1'' @ crlf @ header_block basic_auth_headers @ crlf)
   \<and> basic_auth_headers = [''Host: x''] @ ''user-agent:  curl/7.81'' # [''AUTHORIZATION: Basic YTpi'']
   \<and> strncasecmp_eq ''user-agent:  curl/7.81'' ''User-Agent:'' 11
   \<and> list_all (\<lambda>l. \<not> strncasecmp_eq l ''User-Agent:'' 11) ([''Host: x''] @ [''AUTHORIZATION: Basic YTpi''])
   \<and> header_text 11 ''user-agent:  curl/7.81'' = ''curl/7.81''
   \<and> map_option (\<lambda>r. (fst (snd (snd r)), snd (snd (snd r))))
        (parse_http_request (Some basic_auth_request))
       = Some (''curl/7.81'', ''Basic YTpi'')"
proof -
  have a: "CR \<notin> set ''GET /admin HTTP/1.1''"
    by code_simp
  have b: "list_all proper_line basic_auth_headers"
    by code_simp
  have c: "NUL \<notin> set (''GET /admin HTTP/1.1'' @ crlf @ header_block basic_auth_headers @ crlf)"
    by code_simp
  have d: "10 \<le> length (''GET /admin HTTP/1.1'' @ crlf @ header_block basic_auth_headers @ crlf)"
    by simp
  have e: "header_fields basic_auth_headers = (''curl/7.81'', ''Basic YTpi'')"
    by code_simp
  have f: "basic_auth_headers = [''Host: x''] @ ''user-agent:  curl/7.81'' # [''AUTHORIZATION: Basic YTpi'']"
    by (simp add: basic_auth_headers_def)
  have g: "strncasecmp_eq ''user-agent:  curl/7.81'' ''User-Agent:'' 11"
    by code_simp
  have h: "list_all (\<lambda>l. \<not> strncasecmp_eq l ''User-Agent:'' 11) ([''Host: x''] @ [''AUTHORIZATION: Basic YTpi''])"
    by code_simp
  have i: "header_text 11 ''user-agent:  curl/7.81'' = ''curl/7.81''"
    by code_simp
  show ?thesis
    using header_values_extracted [OF a b c d, of "[]"] a b c d e f g h i
    by (simp add: basic_auth_request_def)
qed

text \<open>
  The claim as stated fails: a User-Agent value of 255 characters leaves the field
  empty, where its truncation to 255 characters is the value itself.
\<close>

theorem long_agent_counterexample:
  "map_option (\<lambda>r. fst (snd (snd r))) (parse_http_request (Some long_agent_request)) = Some []
   \<and> take 255 long_agent \<noteq> []"
proof -
  have a: "CR \<notin> set ''GET / HTTP/1.1''"
    by code_simp
  have b: "list_all proper_line [''User-Agent: '' @ long_agent]"
    by code_simp
  have c: "NUL \<notin> set (''GET / HTTP/1.1'' @ crlf @ header_block [''User-Agent: '' @ long_agent] @ crlf)"
    by code_simp
  have d: "10 \<le> length (''GET / HTTP/1.1'' @ crlf @ header_block [''User-Agent: '' @ long_agent] @ crlf)"
    by simp
  have e: "header_fields [''User-Agent: '' @ long_agent] = ([], [])"
    by code_simp
  have f: "take 255 long_agent \<noteq> []"
    by (simp add: long_agent_def)
  have "map_option (\<lambda>r. (fst (snd (snd r)), snd (snd (snd r))))
          (parse_http_request (Some long_agent_request)) = Some ([], [])"
    using parse_request_headers [OF a b c d, of "[]"] e by (simp add: long_agent_request_def)
  then have "map_option (\<lambda>r. fst (snd (snd r))) (parse_http_request (Some long_agent_request)) = Some []"
    by (cases "parse_http_request (Some long_agent_request)") auto
  with f show ?thesis
    by simp
qed

subsection \<open>The record of a request\<close>

lemma no_pattern_keeps_field:
  "list_all (\<lambda>pat. strstr data pat = None) pats \<Longrightarrow>
   foldl (\<lambda>cur pat. extract_field P data pat cur) cur pats = cur"
  by (induction pats arbitrary: cur) (simp_all add: extract_field_def)

text \<open>
  C10 (as amended). For every HTTP request that parses, when the Authorization value
  \<open>au\<close> that \<^verbatim>\<open>parse_http_request\<close> extracted is non-empty (a header value of 1 to 254
  characters), the one record emitted has as password \<open>au\<close> cut to the field's
  capacity instead of \<open>N/A\<close>, unless the method is \<open>POST\<close>; for \<open>POST\<close> the password
  is what credential extraction over the request makes of that value, which is the
  value itself when no password key occurs. The username is \<open>N/A\<close> for every method
  other than \<open>POST\<close>, with or without the header.
\<close>

theorem authorization_becomes_password:
  "parse_http_request (Some bytes) = Some (m, p, ua, au) \<Longrightarrow> 4 \<le> username_size P \<Longrightarrow>
   r = log_http_attack P hash now client_ip port m p ua au bytes \<Longrightarrow>
   logged (http_service_handle_request P hash now (Some bytes) client_ip port) = [r]
   \<and> (m \<noteq> ''POST'' \<longrightarrow> username r = ''N/A'')
   \<and> (au \<noteq> [] \<longrightarrow> m \<noteq> ''POST'' \<longrightarrow> password r = take (password_size P - 1) au)
   \<and> (au \<noteq> [] \<longrightarrow> m = ''POST'' \<longrightarrow>
        (username r, password r)
          = extract_credentials_from_post P (cstr bytes) (''N/A'', take (password_size P - 1) au))
   \<and> (au \<noteq> [] \<longrightarrow> m = ''POST'' \<longrightarrow>
        list_all (\<lambda>pat. strstr (cstr bytes) pat = None) password_patterns \<longrightarrow>
        password r = take (password_size P - 1) au)"
proof -
  assume parsed: "parse_http_request (Some bytes) = Some (m, p, ua, au)"
    and sz: "4 \<le> username_size P"
    and r: "r = log_http_attack P hash now client_ip port m p ua au bytes"
  have na: "strncpy_field (username_size P) ''N/A'' = ''N/A''"
    using sz by (simp add: strncpy_field_def)
  have one: "logged (http_service_handle_request P hash now (Some bytes) client_ip port) = [r]"
    by (simp add: http_service_handle_request_def parsed r)
  have get: "m \<noteq> ''POST'' \<Longrightarrow> username r = ''N/A''"
    by (simp add: r log_http_attack_def na Let_def)
  have pw: "au \<noteq> [] \<Longrightarrow> m \<noteq> ''POST'' \<Longrightarrow> password r = take (password_size P - 1) au"
    by (simp add: r log_http_attack_def strncpy_field_def Let_def)
  have post: "au \<noteq> [] \<Longrightarrow> m = ''POST'' \<Longrightarrow>
      (username r, password r)
        = extract_credentials_from_post P (cstr bytes) (''N/A'', take (password_size P - 1) au)"
    by (simp add: r log_http_attack_def na Let_def) (simp add: strncpy_field_def)
  have keep: "au \<noteq> [] \<Longrightarrow> m = ''POST'' \<Longrightarrow>
      list_all (\<lambda>pat. strstr (cstr bytes) pat = None) password_patterns \<Longrightarrow>
      password r = take (password_size P - 1) au"
    using post no_pattern_keeps_field [of "cstr bytes" password_patterns P "take (password_size P - 1) au"]
    by (auto simp: extract_credentials_from_post_def)
  from one get pw post keep show ?thesis
    by blast
qed

lemma basic_auth_parsed:
  "parse_http_request (Some basic_auth_request) = Some (''GET'', ''/admin'', ''curl/7.81'', ''Basic YTpi'')"
  by code_simp

theorem authorization_becomes_password_witness:
  "parse_http_request (Some basic_auth_request) = Some (''GET'', ''/admin'', ''curl/7.81'', ''Basic YTpi'')
   \<and> 4 \<le> username_size esp32
   \<and> map username (logged (http_service_handle_request esp32 no_hash 0 (Some basic_auth_request) ''10.0.0.1'' 80))
       = [''N/A'']
   \<and> map password (logged (http_service_handle_request esp32 no_hash 0 (Some basic_auth_request) ''10.0.0.1'' 80))
       = [''Basic YTpi'']"
proof -
  have sz: "4 \<le> username_size esp32"
    by (simp add: esp32_def)
  have cap: "password_size esp32 = 64"
    by (simp add: esp32_def)
  show ?thesis
    using authorization_becomes_password [OF basic_auth_parsed sz refl, of no_hash 0 "''10.0.0.1''" 80]
      basic_auth_parsed sz
    by (simp add: cap)
qed

lemma long_token_parsed:
  "parse_http_request (Some long_token_request) = Some (''GET'', ''/'', [], [])"
proof -
  have a: "CR \<notin> set ''GET / HTTP/1.1''"
    by code_simp
  have b: "list_all proper_line [''Authorization: '' @ long_token]"
    by code_simp
  have c: "cstr long_token_request = long_token_request"
    by code_simp
  have d: "\<not> length long_token_request < 10"
    by (simp add: long_token_request_def)
  have e: "header_fields [''Authorization: '' @ long_token] = ([], [])"
    by code_simp
  have f: "sscanf_method_path long_token_request = (''GET'', ''/'')"
    by code_simp
  have "parse_headers long_token_request [] [] = ([], [])"
    using parse_headers_block [OF a b, of "[]" "[]" "[]"] e
    by (simp add: long_token_request_def header_fields_def)
  then show ?thesis
    using d by (simp add: parse_http_request_def c f)
qed

text \<open>
  The claim as stated fails: an Authorization value of 255 characters is not handed to
  the record, whose password stays \<open>N/A\<close> and is not the value cut to the field's
  capacity.
\<close>

theorem long_token_counterexample:
  "map password
     (logged (http_service_handle_request esp32 no_hash 0 (Some long_token_request) ''10.0.0.1'' 80))
     = [''N/A'']
   \<and> take (password_size esp32 - 1) long_token \<noteq> ''N/A''"
proof -
  have "take 63 long_token \<noteq> ''N/A''"
    by code_simp
  then show ?thesis
    by (simp add: http_service_handle_request_def long_token_parsed log_http_attack_def
        platform_sizes strncpy_field_def)
qed

section \<open>Properties of the JSON rendering\<close>

subsection \<open>Reading the text as a JSON object\<close>











subsection \<open>The time string\<close>






lemma wrap_c_int_in_range: "fits_c_int i \<Longrightarrow> wrap_c_int i = i"
  by (simp add: fits_c_int_def wrap_c_int_def)

lemma localtime_utc_zone: "localtime 0 t = gmtime t"
  by (simp add: localtime_def)

lemma strftime_iso_utc:
  "gmtime t = Some b \<Longrightarrow> fits_c_int (tm_year b + 1900) \<Longrightarrow> strftime_iso b = Some time_str \<Longrightarrow>
   time_str = iso8601_utc t"
  by (auto simp: gmtime_def strftime_iso_def iso8601_utc_def wrap_c_int_in_range split: if_splits)

subsection \<open>Status and text of \<^verbatim>\<open>attack_logger_format_json\<close>\<close>


lemma format_json_returns:
  assumes "localtime tz (timestamp r) = Some timeinfo" and "strftime_iso timeinfo = Some time_str"
  shows "attack_logger_format_json tz (Some r) (Some b) n =
       (if length (json_text time_str r) < n then Inr (ESP_OK, Some (json_text time_str r))
        else Inr (ESP_ERR_INVALID_SIZE,
                  Some (if n = 0 then b else take (n - 1) (json_text time_str r))))"
  using assms by (auto simp: attack_logger_format_json_def snprintf_stored_def Let_def)


lemma civil_from_days_epoch: "civil_from_days 0 = (1970, 1, 1)"
  by code_simp

lemma broken_down_epoch:
  "broken_down 0 = \<lparr>tm_sec = 0, tm_min = 0, tm_hour = 0, tm_mday = 1, tm_mon = 0, tm_year = 70\<rparr>"
  "broken_down 3600 = \<lparr>tm_sec = 0, tm_min = 0, tm_hour = 1, tm_mday = 1, tm_mon = 0, tm_year = 70\<rparr>"
  by (simp_all add: broken_down_def civil_from_days_epoch)

lemma small_numbers:
  "dec_int 1970 = ''1970''" "two_digits 0 = ''00''" "two_digits 1 = ''01''"
  by (simp_all add: dec_int_def two_digits_def dec_digits.simps digit_chars)


lemma epoch_local_time_str:
  "localtime 3600 (timestamp rec_epoch) = Some (broken_down 3600)"
  "strftime_iso (broken_down 3600) = Some ''1970-01-01T01:00:00Z''"
  by (simp_all add: localtime_def gmtime_def rec_epoch_def broken_down_epoch fits_c_int_def
      strftime_iso_def wrap_c_int_def iso_text_def small_numbers)




text \<open>
  C7. The timestamp of the JSON text is broken down by \<^verbatim>\<open>localtime\<close>, so it is the UTC
  rendering only where the device's zone has offset 0. One hour east of Greenwich the
  record with timestamp 0 is rendered \<open>1970-01-01T01:00:00Z\<close>, where the ISO 8601 UTC
  rendering of 0 is \<open>1970-01-01T00:00:00Z\<close>.
\<close>

theorem format_json_local_time:
  "Option.bind (localtime 3600 (timestamp rec_epoch)) strftime_iso = Some ''1970-01-01T01:00:00Z''
   \<and> iso8601_utc (timestamp rec_epoch) = ''1970-01-01T00:00:00Z''
   \<and> attack_logger_format_json 3600 (Some rec_epoch) (Some []) 512
       = Inr (ESP_OK, Some (json_text ''1970-01-01T01:00:00Z'' rec_epoch))
   \<and> take 35 (json_text ''1970-01-01T01:00:00Z'' rec_epoch)
       = ''{'' @ [DQ] @ ''timestamp'' @ [DQ] @ '':'' @ [DQ] @ ''1970-01-01T01:00:00Z'' @ [DQ]"
proof -
  have a: "iso8601_utc (timestamp rec_epoch) = ''1970-01-01T00:00:00Z''"
    by (simp add: iso8601_utc_def rec_epoch_def broken_down_epoch iso_text_def small_numbers)
  have b: "length (json_text ''1970-01-01T01:00:00Z'' rec_epoch) = 236"
    by code_simp
  have c: "take 35 (json_text ''1970-01-01T01:00:00Z'' rec_epoch)
       = ''{'' @ [DQ] @ ''timestamp'' @ [DQ] @ '':'' @ [DQ] @ ''1970-01-01T01:00:00Z'' @ [DQ]"
    by (simp add: json_text_def json_string_field_def)
  show ?thesis
    using format_json_returns [OF epoch_local_time_str, of "[]" 512] a b c
    by (simp add: epoch_local_time_str)
qed

lemma format_json_utc_zone:
  "localtime 0 t = Some b \<Longrightarrow> fits_c_int (tm_year b + 1900) \<Longrightarrow>
   strftime_iso b = Some time_str \<Longrightarrow> time_str = iso8601_utc t"
  using strftime_iso_utc [of t b time_str] by (simp add: localtime_utc_zone)

text \<open>
  Beyond the year \<open>2^31 - 1\<close> the sum \<^verbatim>\<open>tm_year + 1900\<close> wraps, and the text shows a
  negative year.
\<close>

lemma format_json_wrapped_year:
  "Option.bind (localtime 0 (timestamp rec_wrapped_year)) strftime_iso
     = Some ''-2147483648-01-01T00:00:00Z''
   \<and> iso8601_utc (timestamp rec_wrapped_year) = ''2147483648-01-01T00:00:00Z''"
proof -
  have a: "civil_from_days 784351576777 = (2147483648, 1, 1)"
    by code_simp
  have b: "broken_down 67767976233532800
      = \<lparr>tm_sec = 0, tm_min = 0, tm_hour = 0, tm_mday = 1, tm_mon = 0, tm_year = 2147481748\<rparr>"
    by (simp add: broken_down_def a)
  have c: "dec_int (- 2147483648) = ''-2147483648''" "dec_int 2147483648 = ''2147483648''"
    by (simp_all add: dec_int_def dec_digits.simps digit_chars)
  show ?thesis
    by (simp add: rec_wrapped_year_def localtime_def gmtime_def b fits_c_int_def
        strftime_iso_def wrap_c_int_def iso8601_utc_def iso_text_def small_numbers c)
qed

section \<open>Properties of the honeypot statistics\<close>

lemma word32_le_succ: "x \<noteq> - 1 \<Longrightarrow> x \<le> x + (1 :: 32 word)"
  using inc_less_eq_self_iff_eq [of x] by auto

lemma total_connections_after_step:
  "total_connections (stats (honeypot_step ev s)) =
     (if is_reset ev then 0
      else if admitted ev then total_connections (stats s) + 1
      else total_connections (stats s))"
  by (cases ev)
     (auto simp: honeypot_init_def honeypot_start_def honeypot_stop_def honeypot_reset_stats_def
        honeypot_set_config_def handle_incoming_connection_def update_statistics_def
        zero_stats_def Let_def split: option.splits)

text \<open>
  C8 (as amended). Every step of a run other than \<^verbatim>\<open>honeypot_reset_stats\<close> leaves
  \<^verbatim>\<open>stats.total_connections\<close> as it is, or adds one to it when a connection is
  admitted, so short of the \<^verbatim>\<open>uint32_t\<close> wrap-around at \<open>2^32 - 1\<close> the counter does not
  decrease; \<^verbatim>\<open>honeypot_reset_stats\<close> sets it to 0.
\<close>

theorem total_connections_step:
  "total_connections (stats (honeypot_step ev s)) =
     (if is_reset ev then 0
      else if admitted ev then total_connections (stats s) + 1
      else total_connections (stats s))
   \<and> (\<not> is_reset ev \<and> total_connections (stats s) \<noteq> - 1 \<longrightarrow>
        total_connections (stats s) \<le> total_connections (stats (honeypot_step ev s)))"
  using word32_le_succ [of "total_connections (stats s)"]
  by (simp add: total_connections_after_step)

theorem total_connections_step_witness:
  "\<not> is_reset (IncomingConnection True True True)
   \<and> total_connections (stats honeypot_boot) \<noteq> - 1
   \<and> total_connections (stats honeypot_boot) = 0
   \<and> total_connections (stats (honeypot_step (IncomingConnection True True True) honeypot_boot)) = 1"
  using total_connections_step [of "IncomingConnection True True True" honeypot_boot]
  by (simp add: honeypot_boot_def zero_stats_def)

theorem total_connections_reset_counterexample:
  "total_connections
     (stats (honeypot_run [HoneypotInit True True 0, IncomingConnection True True True] honeypot_boot)) = 1
   \<and> total_connections
       (stats (honeypot_step (ResetStats 5)
          (honeypot_run [HoneypotInit True True 0, IncomingConnection True True True] honeypot_boot))) = 0
   \<and> total_connections
       (stats (honeypot_step (ResetStats 5)
          (honeypot_run [HoneypotInit True True 0, IncomingConnection True True True] honeypot_boot)))
     < total_connections
         (stats (honeypot_run [HoneypotInit True True 0, IncomingConnection True True True] honeypot_boot))"
  by (simp add: honeypot_boot_def zero_stats_def honeypot_init_def handle_incoming_connection_def
      honeypot_reset_stats_def)

end